theory Spec2Isabelle
  imports Main "HOL-Library.List_Lexorder" "HOL-Library.Char_ord"
begin

section \<open>Data model (school_app/models.py)\<close>

text \<open>
  Rows are records, tables are lists of rows, foreign keys are the primary key of the
  row they point to. The primary key that Django adds to every model is the field
  \<open>pk\<close>. Groups and subjects are only ever looked up by key, so their tables keep
  the keys alone.

  A \<open>DateField\<close> value is its proleptic Gregorian ordinal (Python's
  \<open>date.toordinal()\<close>); a \<open>TimeField\<close> value is a time of day counted in
  minutes since midnight.
\<close>

type_synonym date = int
type_synonym time = nat

text \<open>Python's \<open>date.weekday()\<close> is \<open>(self.toordinal() + 6) % 7\<close>: Monday is 0.\<close>

definition weekday_of :: "date \<Rightarrow> int" where
  "weekday_of d = (d + 6) mod 7"

record Student =
  pk :: nat
  user :: nat
  group :: nat

record Teacher =
  pk :: nat
  user :: nat
  main_group :: nat
  additional_groups :: "nat list"
  subjects :: "nat list"

record Parent =
  pk :: nat
  user :: nat
  children :: "nat list"

record Schedule =
  pk :: nat
  group :: nat
  subject :: nat
  teacher :: nat
  weekday :: int
  start_time :: time
  end_time :: time
  classroom :: "string option"
  is_active :: bool

record Lesson =
  pk :: nat
  schedule :: "nat option"
  subject :: nat
  date :: date
  group :: nat
  teacher :: "nat option"
  classroom :: "string option"
  start_time :: "time option"
  end_time :: "time option"
  is_from_schedule :: bool
  lesson_notes :: string

text \<open>
  An Attendance row is addressed by its (lesson, student) pair, which
  \<open>unique_together\<close> makes a key; its surrogate key is never read by the code
  modelled here and is left out.
\<close>

record Attendance =
  lesson :: nat
  student :: nat
  attended :: bool
  late :: bool
  grade :: "int option"

text \<open>
  The database. \<open>schedule_seq\<close> and \<open>lesson_seq\<close> are the next values of the
  auto-increment keys of the two tables the modelled views insert into. What the
  database guarantees of a table (distinct primary keys, no row that refers to a key
  not handed out yet) is not built into the type: a theorem that needs such a fact
  states it as a hypothesis. The \<open>unique_together\<close> constraints of the models are
  checked where a row is inserted or updated.
\<close>

record store =
  groups :: "nat list"
  subjects :: "nat list"
  teachers :: "Teacher list"
  students :: "Student list"
  parents :: "Parent list"
  schedules :: "Schedule list"
  lessons :: "Lesson list"
  attendances :: "Attendance list"
  schedule_seq :: nat
  lesson_seq :: nat

section \<open>Requests and outcomes\<close>

text \<open>
  A value posted in a form: \<open>Missing\<close> is an absent key or the empty string (falsy in
  Python), \<open>Malformed\<close> a non-empty string that the conversion the view applies
  (\<open>int\<close>, \<open>strptime\<close>, the key lookup) does not accept, \<open>Given v\<close> a
  string that converts to \<open>v\<close>.
\<close>

datatype 'a field = Missing | Malformed | Given 'a

text \<open>
  A time posted in a form is kept as the views get it: \<open>raw\<close> is the posted string
  (empty when the key is absent), and \<open>as_time\<close> is what the conversion of a
  \<open>TimeField\<close> makes of that string when it reaches the database (\<open>None\<close> when
  the conversion raises \<open>ValidationError\<close>). The views and \<open>clean\<close> compare the
  posted strings themselves, in Python's order on strings, which is the lexicographic
  order on the characters' codes; the database compares the times.
\<close>

record posted_time =
  raw :: string
  as_time :: "time option"

datatype http_verb = GET | POST

text \<open>What every view reads of \<open>request\<close>: the caller and the method.\<close>

record request =
  user :: nat
  is_superuser :: bool
  http_method :: http_verb

text \<open>
  Every redirect with an error message and every exception is one constructor. The
  names are those of the specification where it has one; \<open>OperationFailed\<close> is the
  generic \<open>except Exception\<close> handler of a view, \<open>NotFound\<close> an uncaught
  \<open>Http404\<close>, \<open>DoesNotExist\<close> a foreign key read whose row is gone,
  \<open>AttributeError\<close> a method called on a value that lacks it,
  \<open>ValidationError\<close> what \<open>Attendance.clean\<close>,
  \<open>Lesson.clean\<close> and \<open>Schedule.clean\<close> raise, \<open>IntegrityError\<close> a violated
  \<open>unique_together\<close>.
\<close>

datatype error =
    NoPermission
  | NoTeacherProfile
  | MissingFields
  | OnlyForSelf
  | InvalidTimeRange
  | TeacherNotQualified
  | TeacherNotAssignedToGroup
  | GroupTimeConflict
  | TeacherTimeConflict
  | MissingDate
  | MissingSchedule
  | MissingSubjectGroup
  | NotAuthorized
  | WeekdayMismatch
  | DuplicateLesson
  | OperationFailed
  | NotFound
  | DoesNotExist
  | AttributeError
  | ValidationError
  | IntegrityError

section \<open>Queries shared by the views\<close>

definition teacher_of_user :: "store \<Rightarrow> nat \<Rightarrow> Teacher option" where
  "teacher_of_user st u = find (\<lambda>t. Teacher.user t = u) (teachers st)"

definition parent_of_user :: "store \<Rightarrow> nat \<Rightarrow> Parent option" where
  "parent_of_user st u = find (\<lambda>p. Parent.user p = u) (parents st)"

definition get_teacher :: "store \<Rightarrow> nat \<Rightarrow> Teacher option" where
  "get_teacher st i = find (\<lambda>t. Teacher.pk t = i) (teachers st)"

definition get_student :: "store \<Rightarrow> nat \<Rightarrow> Student option" where
  "get_student st i = find (\<lambda>s. Student.pk s = i) (students st)"

definition get_schedule :: "store \<Rightarrow> nat \<Rightarrow> Schedule option" where
  "get_schedule st i = find (\<lambda>s. Schedule.pk s = i) (schedules st)"

text \<open>
  \<open>teacher.main_group == group or teacher.additional_groups.filter(id=group.id).exists()\<close>
\<close>

definition works_with :: "Teacher \<Rightarrow> nat \<Rightarrow> bool" where
  "works_with t g = (Teacher.main_group t = g \<or> g \<in> set (Teacher.additional_groups t))"

section \<open>add_schedule (school_app/views.py)\<close>

record schedule_form = request +
  group :: "nat field"
  subject :: "nat field"
  teacher :: "nat field"
  weekday :: "int field"
  start_time :: posted_time
  end_time :: posted_time
  classroom :: string

text \<open>
  The two conflict queries: the rows selected by \<open>filter(...)\<close>, then
  \<open>.exclude(end_time__lte=start_time).exclude(start_time__gte=end_time)\<close>.
\<close>

definition exclude_disjoint :: "time \<Rightarrow> time \<Rightarrow> Schedule list \<Rightarrow> Schedule list" where
  "exclude_disjoint s e rows =
     filter (\<lambda>r. \<not> Schedule.start_time r \<ge> e)
       (filter (\<lambda>r. \<not> Schedule.end_time r \<le> s) rows)"

definition group_time_conflict :: "store \<Rightarrow> nat \<Rightarrow> int \<Rightarrow> time \<Rightarrow> time \<Rightarrow> Schedule list" where
  "group_time_conflict st g wd s e =
     exclude_disjoint s e
       (filter (\<lambda>r. Schedule.group r = g \<and> Schedule.weekday r = wd \<and> Schedule.is_active r)
          (schedules st))"

definition teacher_time_conflict :: "store \<Rightarrow> nat \<Rightarrow> int \<Rightarrow> time \<Rightarrow> time \<Rightarrow> Schedule list" where
  "teacher_time_conflict st t wd s e =
     exclude_disjoint s e
       (filter (\<lambda>r. Schedule.teacher r = t \<and> Schedule.weekday r = wd \<and> Schedule.is_active r)
          (schedules st))"

text \<open>
  \<open>Schedule.clean\<close>, with the related Teacher row passed in (the foreign key of a
  saved Schedule is never null). Its first test compares \<open>self.start_time\<close> and
  \<open>self.end_time\<close> as the instance holds them: times on a row read from the
  database, the posted strings on the instance that \<open>add_schedule\<close> creates. The
  caller passes the outcome of that comparison as \<open>reversed\<close>.
\<close>

definition Schedule_clean :: "bool \<Rightarrow> Teacher \<Rightarrow> Schedule \<Rightarrow> error + unit" where
  "Schedule_clean reversed t r =
     (if reversed then Inl ValidationError
      else if Schedule.subject r \<notin> set (Teacher.subjects t) then Inl ValidationError
      else if \<not> works_with t (Schedule.group r) then Inl ValidationError
      else Inr ())"

text \<open>
  The insert of a new Schedule row: \<open>unique_together = ('group', 'weekday',
  'start_time')\<close> refuses a row that repeats the triple of a stored one.
\<close>

definition Schedule_insert :: "store \<Rightarrow> Schedule \<Rightarrow> error + store" where
  "Schedule_insert st r =
     (if list_ex (\<lambda>x. Schedule.group x = Schedule.group r
                     \<and> Schedule.weekday x = Schedule.weekday r
                     \<and> Schedule.start_time x = Schedule.start_time r) (schedules st)
      then Inl IntegrityError
      else Inr (st\<lparr>schedules := schedules st @ [r\<lparr>Schedule.pk := schedule_seq st\<rparr>],
                   schedule_seq := Suc (schedule_seq st)\<rparr>))"

text \<open>
  \<open>Schedule.objects.create(...)\<close>: \<open>Schedule.save\<close> runs \<open>clean\<close> and then
  inserts.
\<close>

definition Schedule_create :: "store \<Rightarrow> bool \<Rightarrow> Teacher \<Rightarrow> Schedule \<Rightarrow> error + store" where
  "Schedule_create st reversed t r =
     (case Schedule_clean reversed t r of
        Inl e \<Rightarrow> Inl e
      | Inr _ \<Rightarrow> Schedule_insert st r)"

text \<open>
  The weekday column is an \<open>IntegerField\<close>, a signed 64-bit integer in SQLite, the
  database of a Django project that configures no other. \<open>int(weekday)\<close> is a
  Python integer of any size; one outside the column's range cannot be bound to a
  query or an insert (\<open>OverflowError\<close>, or a lookup that matches no row followed by
  the failing insert): the generic handler answers and nothing is stored.
\<close>

definition IntegerField_fits :: "int \<Rightarrow> bool" where
  "IntegerField_fits n = (- (2 ^ 63) \<le> n \<and> n < 2 ^ 63)"

text \<open>
  After the insert the view prints the new schedule and builds the success message;
  both call \<open>Schedule.get_time_range\<close>, which calls \<open>strftime\<close> on
  \<open>self.start_time\<close>. The instance still holds the posted strings (a model
  instance keeps what was assigned; only the database column is converted), and a
  string has no \<open>strftime\<close>: whatever was posted, the call raises
  \<open>AttributeError\<close>.
\<close>

definition created_schedule_str :: "posted_time \<Rightarrow> posted_time \<Rightarrow> error + unit" where
  "created_schedule_str s e = Inl AttributeError"

text \<open>
  The view returns the error or the key of the created row (\<open>None\<close> for the form
  shown on GET), and the store it leaves. The handler \<open>except ValidationError\<close> is
  the outcome \<open>ValidationError\<close>, the handler \<open>except Exception\<close> the outcome
  \<open>OperationFailed\<close>. The two \<open>exclude\<close> calls convert the posted times. No
  transaction encloses the view: a row inserted before an exception stays.
\<close>

definition add_schedule :: "store \<Rightarrow> schedule_form \<Rightarrow> (error + nat option) \<times> store" where
  "add_schedule st rq =
     (if \<not> (request.is_superuser rq \<or> teacher_of_user st (request.user rq) \<noteq> None)
      then (Inl NoPermission, st)
      else if request.http_method rq \<noteq> POST then (Inr None, st)
      else if schedule_form.group rq = Missing \<or> schedule_form.subject rq = Missing
              \<or> schedule_form.teacher rq = Missing \<or> schedule_form.weekday rq = Missing
              \<or> raw (schedule_form.start_time rq) = []
              \<or> raw (schedule_form.end_time rq) = []
      then (Inl MissingFields, st)
      else
        (case (schedule_form.group rq, schedule_form.subject rq, schedule_form.teacher rq) of
           (Given g, Given sj, Given tid) \<Rightarrow>
             (if g \<notin> set (groups st) \<or> sj \<notin> set (subjects st) then (Inl OperationFailed, st)
              else
                (case get_teacher st tid of
                   None \<Rightarrow> (Inl OperationFailed, st)
                 | Some t \<Rightarrow>
                     if \<not> request.is_superuser rq
                        \<and> (case teacher_of_user st (request.user rq) of
                              None \<Rightarrow> False
                            | Some own \<Rightarrow> Teacher.pk own \<noteq> Teacher.pk t)
                     then (Inl OnlyForSelf, st)
                     else if raw (schedule_form.start_time rq) \<ge> raw (schedule_form.end_time rq)
                     then (Inl InvalidTimeRange, st)
                     else if sj \<notin> set (Teacher.subjects t) then (Inl TeacherNotQualified, st)
                     else if \<not> works_with t g then (Inl TeacherNotAssignedToGroup, st)
                     else
                       (case schedule_form.weekday rq of
                          Given wd \<Rightarrow>
                            (case (as_time (schedule_form.start_time rq),
                                   as_time (schedule_form.end_time rq)) of
                               (Some s, Some e) \<Rightarrow>
                                 if \<not> IntegerField_fits wd then (Inl OperationFailed, st)
                                 else if group_time_conflict st g wd s e \<noteq> []
                                 then (Inl GroupTimeConflict, st)
                                 else if teacher_time_conflict st (Teacher.pk t) wd s e \<noteq> []
                                 then (Inl TeacherTimeConflict, st)
                                 else
                                   (case Schedule_create st
                                           (raw (schedule_form.start_time rq)
                                              \<ge> raw (schedule_form.end_time rq))
                                           t
                                           \<lparr>Schedule.pk = 0, group = g, subject = sj,
                                            teacher = Teacher.pk t, weekday = wd,
                                            start_time = s, end_time = e,
                                            classroom = Some (schedule_form.classroom rq),
                                            is_active = True\<rparr> of
                                      Inl ValidationError \<Rightarrow> (Inl ValidationError, st)
                                    | Inl _ \<Rightarrow> (Inl OperationFailed, st)
                                    | Inr st' \<Rightarrow>
                                        (case created_schedule_str (schedule_form.start_time rq)
                                                (schedule_form.end_time rq) of
                                           Inl _ \<Rightarrow> (Inl OperationFailed, st')
                                         | Inr _ \<Rightarrow> (Inr (Some (schedule_seq st)), st')))
                             | _ \<Rightarrow> (Inl ValidationError, st))
                        | _ \<Rightarrow> (Inl OperationFailed, st))))
         | _ \<Rightarrow> (Inl OperationFailed, st)))"

section \<open>Editing and deleting a Schedule\<close>

text \<open>
  \<open>Schedule.save\<close> on a row that is already stored (the admin's change form):
  \<open>clean\<close>, then the update of the row with that key. The related Teacher is read
  through the foreign key. The update is refused when another row holds the same
  (group, weekday, start_time).
\<close>

definition Schedule_save :: "store \<Rightarrow> Schedule \<Rightarrow> error + store" where
  "Schedule_save st r =
     (case get_teacher st (Schedule.teacher r) of
        None \<Rightarrow> Inl DoesNotExist
      | Some t \<Rightarrow>
          (case Schedule_clean (Schedule.start_time r \<ge> Schedule.end_time r) t r of
             Inl e \<Rightarrow> Inl e
           | Inr _ \<Rightarrow>
               if list_ex (\<lambda>x. Schedule.pk x \<noteq> Schedule.pk r
                               \<and> Schedule.group x = Schedule.group r
                               \<and> Schedule.weekday x = Schedule.weekday r
                               \<and> Schedule.start_time x = Schedule.start_time r) (schedules st)
               then Inl IntegrityError
               else Inr (st\<lparr>schedules :=
                              map (\<lambda>x. if Schedule.pk x = Schedule.pk r then r else x)
                                (schedules st)\<rparr>)))"

text \<open>
  \<open>schedule.delete()\<close>. \<open>Lesson.schedule\<close> is declared
  \<open>ForeignKey(Schedule, on_delete=models.CASCADE, null=True, blank=True)\<close> and
  \<open>Attendance.lesson\<close> is declared \<open>ForeignKey(Lesson, on_delete=models.CASCADE)\<close>:
  the delete removes the Schedule row, every Lesson whose \<open>schedule\<close> is that row,
  and every Attendance row of such a Lesson.
\<close>

definition Schedule_delete :: "store \<Rightarrow> nat \<Rightarrow> store" where
  "Schedule_delete st sid =
     (let gone = map Lesson.pk (filter (\<lambda>l. Lesson.schedule l = Some sid) (lessons st))
      in st\<lparr>schedules := filter (\<lambda>s. Schedule.pk s \<noteq> sid) (schedules st),
            lessons := filter (\<lambda>l. Lesson.schedule l \<noteq> Some sid) (lessons st),
            attendances := filter (\<lambda>a. Attendance.lesson a \<notin> set gone) (attendances st)\<rparr>)"

definition delete_schedule :: "store \<Rightarrow> 'a request_scheme \<Rightarrow> nat \<Rightarrow> (error + unit) \<times> store" where
  "delete_schedule st rq schedule_id =
     (case get_schedule st schedule_id of
        None \<Rightarrow> (Inl NotFound, st)
      | Some sch \<Rightarrow>
          if \<not> (request.is_superuser rq
                \<or> (case teacher_of_user st (request.user rq) of
                      None \<Rightarrow> False
                    | Some t \<Rightarrow> Teacher.pk t = Schedule.teacher sch))
          then (Inl NoPermission, st)
          else if request.http_method rq = POST then (Inr (), Schedule_delete st schedule_id)
          else (Inr (), st))"

section \<open>Lesson.save and the lesson views\<close>

text \<open>Python's truth value of a nullable \<open>CharField\<close>: \<open>None\<close> and \<open>''\<close> are falsy.\<close>

definition falsy :: "string option \<Rightarrow> bool" where
  "falsy c = (c = None \<or> c = Some [])"

text \<open>
  \<open>Lesson.clean\<close> raises when \<open>self.start_time and self.end_time and
  self.start_time >= self.end_time\<close>. The test is on the two attributes as the
  instance holds them: times on a row read from the database and on a lesson made
  from a Schedule, the posted strings on the instance the manual path creates.
\<close>

definition times_reversed :: "time option \<Rightarrow> time option \<Rightarrow> bool" where
  "times_reversed s e = (case (s, e) of (Some s', Some e') \<Rightarrow> s' \<ge> e' | _ \<Rightarrow> False)"

definition posted_times_reversed :: "posted_time \<Rightarrow> posted_time \<Rightarrow> bool" where
  "posted_times_reversed s e = (raw s \<noteq> [] \<and> raw e \<noteq> [] \<and> raw s \<ge> raw e)"

definition Lesson_clean :: "bool \<Rightarrow> error + unit" where
  "Lesson_clean reversed = (if reversed then Inl ValidationError else Inr ())"

text \<open>
  The body of \<open>Lesson.save\<close> before \<open>super().save()\<close>. The test
  \<open>self.schedule and self.is_from_schedule\<close> reads the Schedule row through the
  foreign key first. When the lesson has a schedule and is flagged, subject, group,
  teacher and times are taken from the Schedule row as it is stored now, the
  classroom only when the lesson has none; then \<open>clean\<close>, on the copied times when
  they were copied and else on the attributes the instance came with, for which the
  caller passes the outcome of the test as \<open>own_reversed\<close>.
\<close>

definition Lesson_pre_save :: "store \<Rightarrow> bool \<Rightarrow> Lesson \<Rightarrow> error + Lesson" where
  "Lesson_pre_save st own_reversed l =
     (case Lesson.schedule l of
        None \<Rightarrow> (case Lesson_clean own_reversed of Inl e \<Rightarrow> Inl e | Inr _ \<Rightarrow> Inr l)
      | Some sid \<Rightarrow>
          (case get_schedule st sid of
             None \<Rightarrow> Inl DoesNotExist
           | Some sch \<Rightarrow>
               (let l' = (if Lesson.is_from_schedule l
                          then l\<lparr>Lesson.subject := Schedule.subject sch,
                                 Lesson.group := Schedule.group sch,
                                 Lesson.teacher := Some (Schedule.teacher sch),
                                 Lesson.start_time := Some (Schedule.start_time sch),
                                 Lesson.end_time := Some (Schedule.end_time sch),
                                 Lesson.classroom :=
                                   (if falsy (Lesson.classroom l) then Schedule.classroom sch
                                    else Lesson.classroom l)\<rparr>
                          else l);
                    reversed = (if Lesson.is_from_schedule l
                                then times_reversed (Lesson.start_time l') (Lesson.end_time l')
                                else own_reversed)
                in case Lesson_clean reversed of Inl e \<Rightarrow> Inl e | Inr _ \<Rightarrow> Inr l')))"

text \<open>
  \<open>unique_together = ('subject', 'date', 'group', 'start_time')\<close>: a row collides
  with a stored row of another key that has the same four values. A null
  \<open>start_time\<close> never collides, as SQL compares nulls as distinct.
\<close>

definition Lesson_collides :: "store \<Rightarrow> Lesson \<Rightarrow> bool" where
  "Lesson_collides st l =
     list_ex (\<lambda>x. Lesson.pk x \<noteq> Lesson.pk l
                 \<and> Lesson.subject x = Lesson.subject l \<and> Lesson.date x = Lesson.date l
                 \<and> Lesson.group x = Lesson.group l
                 \<and> Lesson.start_time l \<noteq> None
                 \<and> Lesson.start_time x = Lesson.start_time l) (lessons st)"

text \<open>
  \<open>Lesson.objects.create(...)\<close>: \<open>save\<close> of a new row, which gets the next key.
  The result is the key and the store.
\<close>

definition Lesson_create :: "store \<Rightarrow> bool \<Rightarrow> Lesson \<Rightarrow> error + nat \<times> store" where
  "Lesson_create st own_reversed l =
     (case Lesson_pre_save st own_reversed (l\<lparr>Lesson.pk := lesson_seq st\<rparr>) of
        Inl e \<Rightarrow> Inl e
      | Inr l' \<Rightarrow>
          if Lesson_collides st l' then Inl IntegrityError
          else Inr (lesson_seq st,
                    st\<lparr>lessons := lessons st @ [l'], lesson_seq := Suc (lesson_seq st)\<rparr>))"

text \<open>\<open>lesson.save()\<close> on a row that is already stored: the update of that row.\<close>

definition Lesson_save :: "store \<Rightarrow> Lesson \<Rightarrow> error + store" where
  "Lesson_save st l =
     (case Lesson_pre_save st (times_reversed (Lesson.start_time l) (Lesson.end_time l)) l of
        Inl e \<Rightarrow> Inl e
      | Inr l' \<Rightarrow>
          if Lesson_collides st l' then Inl IntegrityError
          else Inr (st\<lparr>lessons :=
                         map (\<lambda>x. if Lesson.pk x = Lesson.pk l' then l' else x) (lessons st)\<rparr>))"

text \<open>
  \<open>Attendance.objects.bulk_create(rows)\<close>: one insert of all the rows, refused as a
  whole when \<open>unique_together = ('lesson', 'student')\<close> would be violated.
  \<open>bulk_create\<close> does not call \<open>save\<close>, so \<open>clean\<close> does not run.
\<close>

definition att_key :: "Attendance \<Rightarrow> nat \<times> nat" where
  "att_key a = (Attendance.lesson a, Attendance.student a)"

definition bulk_create :: "store \<Rightarrow> Attendance list \<Rightarrow> error + store" where
  "bulk_create st rows =
     (if distinct (map att_key rows)
         \<and> list_all (\<lambda>a. att_key a \<notin> set (map att_key (attendances st))) rows
      then Inr (st\<lparr>attendances := attendances st @ rows\<rparr>)
      else Inl IntegrityError)"

text \<open>The row every fan-out creates: \<open>attended=False, late=False, grade=None\<close>.\<close>

definition default_attendance :: "nat \<Rightarrow> Student \<Rightarrow> Attendance" where
  "default_attendance lid s =
     \<lparr>lesson = lid, student = Student.pk s, attended = False, late = False, grade = None\<rparr>"

definition students_of_group :: "store \<Rightarrow> nat \<Rightarrow> Student list" where
  "students_of_group st g = filter (\<lambda>s. Student.group s = g) (students st)"

text \<open>
  The fan-out that ends both lesson views: one default row per student of the group,
  inserted with one \<open>bulk_create\<close>.
\<close>

definition fan_out :: "store \<Rightarrow> nat \<Rightarrow> nat \<Rightarrow> error + store" where
  "fan_out st lid g = bulk_create st (map (default_attendance lid) (students_of_group st g))"

record lesson_form = request +
  lesson_type :: "string option"
  schedule_id :: "nat field"
  date :: "date field"
  subject :: "nat field"
  group :: "nat field"
  start_time :: posted_time
  end_time :: posted_time
  classroom :: string
  lesson_notes :: string

text \<open>
  The weekday message indexes the seven day names with \<open>schedule.weekday\<close>;
  Python raises \<open>IndexError\<close> outside \<open>-7 .. 6\<close>, and the view's handler turns
  it into the generic failure.
\<close>

definition weekday_mismatch :: "int \<Rightarrow> error" where
  "weekday_mismatch wd = (if - 7 \<le> wd \<and> wd < 7 then WeekdayMismatch else OperationFailed)"

text \<open>
  From a Schedule and a date to a Lesson and its attendance rows: the code that
  \<open>add_lesson\<close> (lines 505-533 and 584-601) and \<open>create_lesson_from_schedule\<close>
  (lines 992-1046) both run once the caller is cleared. An exception after the Lesson
  is inserted leaves the Lesson in the store: no transaction encloses the two inserts.
\<close>

definition lesson_from_schedule ::
  "store \<Rightarrow> Schedule \<Rightarrow> date \<Rightarrow> string \<Rightarrow> string \<Rightarrow> (error + nat option) \<times> store" where
  "lesson_from_schedule st sch d room notes =
     (if weekday_of d \<noteq> Schedule.weekday sch
      then (Inl (weekday_mismatch (Schedule.weekday sch)), st)
      else if filter (\<lambda>l. Lesson.schedule l = Some (Schedule.pk sch) \<and> Lesson.date l = d)
                (lessons st) \<noteq> []
      then (Inl DuplicateLesson, st)
      else
        (case Lesson_create st
                (times_reversed (Some (Schedule.start_time sch)) (Some (Schedule.end_time sch)))
                \<lparr>Lesson.pk = 0, schedule = Some (Schedule.pk sch),
                 subject = Schedule.subject sch, date = d, group = Schedule.group sch,
                 teacher = Some (Schedule.teacher sch),
                 classroom = (if room = [] then Schedule.classroom sch else Some room),
                 start_time = Some (Schedule.start_time sch),
                 end_time = Some (Schedule.end_time sch),
                 is_from_schedule = True, lesson_notes = notes\<rparr> of
           Inl _ \<Rightarrow> (Inl OperationFailed, st)
         | Inr (lid, st1) \<Rightarrow>
             (case fan_out st1 lid (Schedule.group sch) of
                Inl _ \<Rightarrow> (Inl OperationFailed, st1)
              | Inr st2 \<Rightarrow> (Inr (Some lid), st2))))"

text \<open>
  The success message of the manual path calls \<open>lesson.get_time_range()\<close> when
  \<open>lesson.start_time\<close> is truthy. The instance still holds the posted strings (a
  model instance keeps what was assigned; only the database column is converted), and
  \<open>get_time_range\<close> calls \<open>strftime\<close> on both when both are set: a string has
  no \<open>strftime\<close>.
\<close>

definition manual_time_info :: "posted_time \<Rightarrow> posted_time \<Rightarrow> error + unit" where
  "manual_time_info s e =
     (if raw s \<noteq> [] then (if raw s \<noteq> [] \<and> raw e \<noteq> [] then Inl AttributeError else Inr ())
      else Inr ())"

text \<open>
  What the insert stores for a posted time: \<open>start_time if start_time else None\<close>,
  converted by the \<open>TimeField\<close>.
\<close>

definition column_of :: "posted_time \<Rightarrow> error + time option" where
  "column_of p =
     (if raw p = [] then Inr None
      else (case as_time p of None \<Rightarrow> Inl ValidationError | Some t \<Rightarrow> Inr (Some t)))"

text \<open>
  The manual path. \<open>Lesson.objects.create\<close> runs \<open>clean\<close> on the posted strings
  and converts them for the insert; whichever of the two raises, the view's handler
  answers and nothing is stored.
\<close>

definition lesson_manual ::
  "store \<Rightarrow> Teacher \<Rightarrow> lesson_form \<Rightarrow> date \<Rightarrow> (error + nat option) \<times> store" where
  "lesson_manual st t rq d =
     (if lesson_form.subject rq = Missing \<or> lesson_form.group rq = Missing
      then (Inl MissingSubjectGroup, st)
      else
        (case (lesson_form.subject rq, lesson_form.group rq) of
           (Given sj, Given g) \<Rightarrow>
             if sj \<notin> set (subjects st) \<or> g \<notin> set (groups st) then (Inl OperationFailed, st)
             else if \<not> works_with t g then (Inl NotAuthorized, st)
             else if filter (\<lambda>l. Lesson.subject l = sj \<and> Lesson.group l = g \<and> Lesson.date l = d)
                       (lessons st) \<noteq> []
             then (Inl DuplicateLesson, st)
             else
               (case (column_of (lesson_form.start_time rq),
                      column_of (lesson_form.end_time rq)) of
                  (Inr s, Inr e) \<Rightarrow>
                    (case Lesson_create st
                            (posted_times_reversed (lesson_form.start_time rq)
                               (lesson_form.end_time rq))
                            \<lparr>Lesson.pk = 0, schedule = None, subject = sj, date = d, group = g,
                             teacher = Some (Teacher.pk t),
                             classroom = Some (lesson_form.classroom rq),
                             start_time = s, end_time = e,
                             is_from_schedule = False,
                             lesson_notes = lesson_form.lesson_notes rq\<rparr> of
                       Inl _ \<Rightarrow> (Inl OperationFailed, st)
                     | Inr (lid, st1) \<Rightarrow>
                         (case manual_time_info (lesson_form.start_time rq)
                                 (lesson_form.end_time rq) of
                            Inl _ \<Rightarrow> (Inl OperationFailed, st1)
                          | Inr _ \<Rightarrow>
                              (case fan_out st1 lid g of
                                 Inl _ \<Rightarrow> (Inl OperationFailed, st1)
                               | Inr st2 \<Rightarrow> (Inr (Some lid), st2))))
                | _ \<Rightarrow> (Inl OperationFailed, st))
         | _ \<Rightarrow> (Inl OperationFailed, st)))"

text \<open>
  The view: the error or the key of the created Lesson (\<open>None\<close> for the form shown
  on GET), and the store it leaves.
\<close>

definition add_lesson :: "store \<Rightarrow> lesson_form \<Rightarrow> (error + nat option) \<times> store" where
  "add_lesson st rq =
     (case teacher_of_user st (request.user rq) of
        None \<Rightarrow> (Inl NoTeacherProfile, st)
      | Some t \<Rightarrow>
          if request.http_method rq \<noteq> POST then (Inr None, st)
          else
            (case lesson_form.date rq of
               Missing \<Rightarrow> (Inl MissingDate, st)
             | Malformed \<Rightarrow> (Inl OperationFailed, st)
             | Given d \<Rightarrow>
                 if lesson_form.lesson_type rq = Some ''from_schedule''
                 then
                   (case lesson_form.schedule_id rq of
                      Missing \<Rightarrow> (Inl MissingSchedule, st)
                    | Malformed \<Rightarrow> (Inl OperationFailed, st)
                    | Given sid \<Rightarrow>
                        (case get_schedule st sid of
                           None \<Rightarrow> (Inl OperationFailed, st)
                         | Some sch \<Rightarrow>
                             if \<not> works_with t (Schedule.group sch) then (Inl NotAuthorized, st)
                             else lesson_from_schedule st sch d (lesson_form.classroom rq)
                                    (lesson_form.lesson_notes rq)))
                 else lesson_manual st t rq d))"

definition create_lesson_from_schedule ::
  "store \<Rightarrow> lesson_form \<Rightarrow> nat \<Rightarrow> (error + nat option) \<times> store" where
  "create_lesson_from_schedule st rq sid =
     (case get_schedule st sid of
        None \<Rightarrow> (Inl NotFound, st)
      | Some sch \<Rightarrow>
          if (case teacher_of_user st (request.user rq) of
                Some t \<Rightarrow> Teacher.pk t \<noteq> Schedule.teacher sch \<and> \<not> request.is_superuser rq
              | None \<Rightarrow> False)
          then (Inl NotAuthorized, st)
          else if teacher_of_user st (request.user rq) = None \<and> \<not> request.is_superuser rq
          then (Inl NoTeacherProfile, st)
          else if request.http_method rq \<noteq> POST then (Inr None, st)
          else
            (case lesson_form.date rq of
               Missing \<Rightarrow> (Inl MissingDate, st)
             | Malformed \<Rightarrow> (Inl OperationFailed, st)
             | Given d \<Rightarrow>
                 lesson_from_schedule st sch d (lesson_form.classroom rq)
                   (lesson_form.lesson_notes rq)))"

section \<open>create_missing_attendance_records\<close>

text \<open>
  For one lesson: the students of its group, without those whose key is among the
  \<open>student_id\<close> values of the lesson's attendance rows, each as a default row. The
  query is evaluated when the loop reaches the lesson, on the store as it is then.
\<close>

definition missing_attendance :: "store \<Rightarrow> Lesson \<Rightarrow> Attendance list" where
  "missing_attendance st l =
     (let existing_attendance =
            map Attendance.student
              (filter (\<lambda>a. Attendance.lesson a = Lesson.pk l) (attendances st))
      in map (default_attendance (Lesson.pk l))
           (filter (\<lambda>s. Student.pk s \<notin> set existing_attendance)
              (students_of_group st (Lesson.group l))))"

text \<open>
  The loop over all lessons, with \<open>created_count\<close>. \<open>IntegrityError\<close> is not
  caught by this view: it ends the loop, and what earlier iterations inserted stays.
\<close>

fun reconcile :: "Lesson list \<Rightarrow> nat \<Rightarrow> store \<Rightarrow> (error + nat) \<times> store" where
  "reconcile [] created_count st = (Inr created_count, st)"
| "reconcile (l # ls) created_count st =
     (let attendance_records = missing_attendance st l
      in if attendance_records = [] then reconcile ls created_count st
         else (case bulk_create st attendance_records of
                 Inl e \<Rightarrow> (Inl e, st)
               | Inr st' \<Rightarrow> reconcile ls (created_count + length attendance_records) st'))"

text \<open>The view: the number of rows created (\<open>None\<close> for the page shown on GET).\<close>

definition create_missing_attendance_records ::
  "store \<Rightarrow> 'a request_scheme \<Rightarrow> (error + nat option) \<times> store" where
  "create_missing_attendance_records st rq =
     (if \<not> request.is_superuser rq then (Inl NoPermission, st)
      else if request.http_method rq = POST
      then (case reconcile (lessons st) 0 st of
              (Inl e, st') \<Rightarrow> (Inl e, st')
            | (Inr n, st') \<Rightarrow> (Inr (Some n), st'))
      else (Inr None, st))"

section \<open>Attendance.save and edit_attendance\<close>

definition Attendance_clean :: "Attendance \<Rightarrow> error + unit" where
  "Attendance_clean a =
     (if (case Attendance.grade a of None \<Rightarrow> False | Some g \<Rightarrow> g < 2 \<or> g > 5)
      then Inl ValidationError
      else if \<not> Attendance.attended a \<and> Attendance.late a then Inl ValidationError
      else Inr ())"

text \<open>\<open>attendance.save()\<close> on a stored row: \<open>clean\<close>, then the update of that row.\<close>

definition Attendance_save :: "store \<Rightarrow> Attendance \<Rightarrow> error + store" where
  "Attendance_save st a =
     (case Attendance_clean a of
        Inl e \<Rightarrow> Inl e
      | Inr _ \<Rightarrow>
          Inr (st\<lparr>attendances :=
                    map (\<lambda>x. if att_key x = att_key a then a else x) (attendances st)\<rparr>))"

text \<open>\<open>Attendance.objects.create(...)\<close>: \<open>clean\<close>, then the insert of a new row.\<close>

definition Attendance_create :: "store \<Rightarrow> Attendance \<Rightarrow> error + store" where
  "Attendance_create st a =
     (case Attendance_clean a of
        Inl e \<Rightarrow> Inl e
      | Inr _ \<Rightarrow>
          if att_key a \<in> set (map att_key (attendances st)) then Inl IntegrityError
          else Inr (st\<lparr>attendances := attendances st @ [a]\<rparr>))"

text \<open>
  The form of \<open>edit_attendance\<close> has three inputs per lesson, named by the lesson's
  key: two checkboxes (posted or not) and the grade.
\<close>

record attendance_form = request +
  attended_posted :: "nat \<Rightarrow> bool"
  late_posted :: "nat \<Rightarrow> bool"
  grade_posted :: "nat \<Rightarrow> int field"

text \<open>
  What the view makes of the three inputs of one lesson: \<open>late\<close> is dropped when
  \<open>attended\<close> is not posted; a grade that does not parse or lies outside 2..5
  becomes \<open>None\<close>.
\<close>

definition posted_late :: "attendance_form \<Rightarrow> nat \<Rightarrow> bool" where
  "posted_late rq lid = (if \<not> attended_posted rq lid then False else late_posted rq lid)"

definition posted_grade :: "attendance_form \<Rightarrow> nat \<Rightarrow> int option" where
  "posted_grade rq lid =
     (case grade_posted rq lid of
        Given g \<Rightarrow> if g < 2 \<or> g > 5 then None else Some g
      | _ \<Rightarrow> None)"

text \<open>
  One iteration of the loop over the lessons. \<open>records_dict\<close> is built before the
  loop from the student's rows. A \<open>ValidationError\<close> is caught and the loop goes
  on; any other exception ends the view.
\<close>

definition edit_row ::
  "(nat \<rightharpoonup> Attendance) \<Rightarrow> nat \<Rightarrow> attendance_form \<Rightarrow> Lesson \<Rightarrow> store \<Rightarrow> error + store" where
  "edit_row records_dict sid rq l st =
     (let lid = Lesson.pk l;
          attended = attended_posted rq lid;
          late = posted_late rq lid;
          grade = posted_grade rq lid
      in case records_dict lid of
           Some attendance \<Rightarrow>
             if Attendance.attended attendance \<noteq> attended
                \<or> Attendance.late attendance \<noteq> late
                \<or> Attendance.grade attendance \<noteq> grade
             then (case Attendance_save st
                          (attendance\<lparr>attended := attended, late := late, grade := grade\<rparr>) of
                     Inl ValidationError \<Rightarrow> Inr st
                   | Inl e \<Rightarrow> Inl e
                   | Inr st' \<Rightarrow> Inr st')
             else Inr st
         | None \<Rightarrow>
             (case Attendance_create st
                     \<lparr>lesson = lid, student = sid, attended = attended, late = late,
                      grade = grade\<rparr> of
                Inl ValidationError \<Rightarrow> Inr st
              | Inl e \<Rightarrow> Inl e
              | Inr st' \<Rightarrow> Inr st'))"

fun edit_rows ::
  "(nat \<rightharpoonup> Attendance) \<Rightarrow> nat \<Rightarrow> attendance_form \<Rightarrow> Lesson list \<Rightarrow> store
     \<Rightarrow> (error + unit) \<times> store" where
  "edit_rows records_dict sid rq [] st = (Inr (), st)"
| "edit_rows records_dict sid rq (l # ls) st =
     (case edit_row records_dict sid rq l st of
        Inl e \<Rightarrow> (Inl e, st)
      | Inr st' \<Rightarrow> edit_rows records_dict sid rq ls st')"

text \<open>
  Who may edit a student: a teacher of the student's group; else (only when the caller
  is no teacher) a parent of the student; else (only when the caller is neither) the
  administrator or the student.
\<close>

definition has_access :: "store \<Rightarrow> 'a request_scheme \<Rightarrow> Student \<Rightarrow> bool" where
  "has_access st rq s =
     (case teacher_of_user st (request.user rq) of
        Some t \<Rightarrow> works_with t (Student.group s)
      | None \<Rightarrow>
          (case parent_of_user st (request.user rq) of
             Some p \<Rightarrow> Student.pk s \<in> set (Parent.children p)
           | None \<Rightarrow> request.is_superuser rq \<or> request.user rq = Student.user s))"

text \<open>
  The view. The lessons of the student's group are walked by date, latest first;
  \<open>records_dict\<close> maps a lesson key to the student's row for it (the last one, should
  there be several). The flag \<open>changes_made\<close> only selects the message shown and is
  left out.
\<close>

definition edit_attendance ::
  "store \<Rightarrow> attendance_form \<Rightarrow> nat \<Rightarrow> (error + unit) \<times> store" where
  "edit_attendance st rq student_id =
     (case get_student st student_id of
        None \<Rightarrow> (Inl NotFound, st)
      | Some s \<Rightarrow>
          if \<not> has_access st rq s then (Inl NoPermission, st)
          else
            (let lessons_of_group =
                   sort_key (\<lambda>l. - Lesson.date l)
                     (filter (\<lambda>l. Lesson.group l = Student.group s) (lessons st));
                 records = filter (\<lambda>a. Attendance.student a = Student.pk s) (attendances st);
                 records_dict = map_of (rev (map (\<lambda>a. (Attendance.lesson a, a)) records))
             in if request.http_method rq = POST
                then edit_rows records_dict (Student.pk s) rq lessons_of_group st
                else (Inr (), st)))"

section \<open>A small school, for concrete runs\<close>

text \<open>
  One teacher (user 10) with main group 1 and additional group 2, teaching subject 1;
  students 1 and 2 in group 1, student 3 in group 2; one Schedule row: group 1,
  subject 1, Mondays 09:00 to 10:00. \<open>ex_monday\<close> is 2024-01-01, a Monday.
\<close>

text \<open>A time as a browser posts it, and a time input left empty.\<close>

definition at :: "string \<Rightarrow> time \<Rightarrow> posted_time" where
  "at s t = \<lparr>raw = s, as_time = Some t\<rparr>"

definition not_posted :: posted_time where
  "not_posted = \<lparr>raw = [], as_time = None\<rparr>"

definition ex_teacher :: Teacher where
  "ex_teacher =
     \<lparr>Teacher.pk = 1, user = 10, main_group = 1, additional_groups = [2], subjects = [1]\<rparr>"

definition ex_schedule :: Schedule where
  "ex_schedule =
     \<lparr>Schedule.pk = 1, group = 1, subject = 1, teacher = 1, weekday = 0,
      start_time = 540, end_time = 600, classroom = Some ''101'', is_active = True\<rparr>"

definition ex_store :: store where
  "ex_store =
     \<lparr>groups = [1, 2], subjects = [1], teachers = [ex_teacher],
      students = [\<lparr>Student.pk = 1, user = 20, group = 1\<rparr>,
                  \<lparr>Student.pk = 2, user = 21, group = 1\<rparr>,
                  \<lparr>Student.pk = 3, user = 22, group = 2\<rparr>],
      parents = [], schedules = [ex_schedule], lessons = [], attendances = [],
      schedule_seq = 2, lesson_seq = 1\<rparr>"

definition ex_monday :: date where
  "ex_monday = 738886"

text \<open>The teacher posts the form of \<open>add_lesson\<close>, from the schedule, for a date.\<close>

definition ex_from_schedule_form :: "date \<Rightarrow> lesson_form" where
  "ex_from_schedule_form d =
     \<lparr>user = 10, is_superuser = False, http_method = POST,
      lesson_type = Some ''from_schedule'', schedule_id = Given 1, date = Given d,
      subject = Missing, group = Missing, start_time = not_posted, end_time = not_posted,
      classroom = [], lesson_notes = []\<rparr>"

text \<open>The teacher posts the manual form for subject 1, group 1 on \<open>ex_monday\<close>.\<close>

definition ex_manual_form :: "posted_time \<Rightarrow> posted_time \<Rightarrow> lesson_form" where
  "ex_manual_form s e =
     \<lparr>user = 10, is_superuser = False, http_method = POST,
      lesson_type = Some ''manual'', schedule_id = Missing, date = Given ex_monday,
      subject = Given 1, group = Given 1, start_time = s, end_time = e,
      classroom = [], lesson_notes = []\<rparr>"

text \<open>The teacher posts the form of \<open>add_schedule\<close> for group 1 on Mondays.\<close>

definition ex_schedule_form :: "posted_time \<Rightarrow> posted_time \<Rightarrow> schedule_form" where
  "ex_schedule_form s e =
     \<lparr>user = 10, is_superuser = False, http_method = POST,
      schedule_form.group = Given 1, subject = Given 1, teacher = Given 1, weekday = Given 0,
      start_time = s, end_time = e, classroom = []\<rparr>"

text \<open>The store after the Monday lesson has been created from the schedule.\<close>

definition ex_lesson :: Lesson where
  "ex_lesson =
     \<lparr>Lesson.pk = 1, schedule = Some 1, subject = 1, date = ex_monday, group = 1,
      teacher = Some 1, classroom = Some ''101'', start_time = Some 540,
      end_time = Some 600, is_from_schedule = True, lesson_notes = []\<rparr>"

definition ex_store1 :: store where
  "ex_store1 =
     ex_store\<lparr>lessons := [ex_lesson],
              attendances :=
                [\<lparr>lesson = 1, student = 1, attended = False, late = False, grade = None\<rparr>,
                 \<lparr>lesson = 1, student = 2, attended = False, late = False, grade = None\<rparr>],
              lesson_seq := 2\<rparr>"

text \<open>Student 4 joins group 1 after the Monday lesson was created.\<close>

definition ex_store2 :: store where
  "ex_store2 =
     ex_store1\<lparr>students := students ex_store1 @ [\<lparr>Student.pk = 4, user = 23, group = 1\<rparr>]\<rparr>"

text \<open>The Schedule row moved to 10:00 to 11:00, and the store after that edit.\<close>

definition ex_schedule_moved :: Schedule where
  "ex_schedule_moved = ex_schedule\<lparr>Schedule.start_time := 600, Schedule.end_time := 660\<rparr>"

definition ex_store1_moved :: store where
  "ex_store1_moved = ex_store1\<lparr>schedules := [ex_schedule_moved]\<rparr>"

text \<open>
  The store in which student 1 attended the Monday lesson and got a 4, and the form of
  \<open>edit_attendance\<close> as the teacher posts it: the same three inputs for every lesson.
\<close>

definition ex_store3 :: store where
  "ex_store3 =
     ex_store1\<lparr>attendances :=
                [\<lparr>lesson = 1, student = 1, attended = True, late = False, grade = Some 4\<rparr>,
                 \<lparr>lesson = 1, student = 2, attended = False, late = False, grade = None\<rparr>]\<rparr>"

definition ex_attendance_form :: "bool \<Rightarrow> bool \<Rightarrow> int field \<Rightarrow> attendance_form" where
  "ex_attendance_form a l g =
     \<lparr>user = 10, is_superuser = False, http_method = POST,
      attended_posted = (\<lambda>_. a), late_posted = (\<lambda>_. l), grade_posted = (\<lambda>_. g)\<rparr>"

definition ex_admin :: "http_verb \<Rightarrow> request" where
  "ex_admin m = \<lparr>user = 1, is_superuser = True, http_method = m\<rparr>"

text \<open>
  The teacher posts the form of \<open>add_schedule\<close> with \<open>weekday=7\<close>, 11:00 to
  12:00; the row that POST stores, and the store it leaves. Then the teacher posts
  the form of \<open>add_lesson\<close>, from that schedule, for a date.
\<close>

definition ex_weekday7_form :: schedule_form where
  "ex_weekday7_form =
     \<lparr>user = 10, is_superuser = False, http_method = POST,
      schedule_form.group = Given 1, subject = Given 1, teacher = Given 1, weekday = Given 7,
      start_time = at ''11:00'' 660, end_time = at ''12:00'' 720, classroom = []\<rparr>"

definition ex_schedule7 :: Schedule where
  "ex_schedule7 =
     \<lparr>Schedule.pk = 2, group = 1, subject = 1, teacher = 1, weekday = 7,
      start_time = 660, end_time = 720, classroom = Some [], is_active = True\<rparr>"

definition ex_store7 :: store where
  "ex_store7 = ex_store\<lparr>schedules := [ex_schedule, ex_schedule7], schedule_seq := 3\<rparr>"

definition ex_from_schedule7_form :: "date \<Rightarrow> lesson_form" where
  "ex_from_schedule7_form d =
     \<lparr>user = 10, is_superuser = False, http_method = POST,
      lesson_type = Some ''from_schedule'', schedule_id = Given 2, date = Given d,
      subject = Missing, group = Missing, start_time = not_posted, end_time = not_posted,
      classroom = [], lesson_notes = []\<rparr>"

text \<open>
  The Lesson that the manual form for \<open>ex_monday\<close>, 11:00 to 12:00, inserts, and the
  store with that Lesson and nothing else new.
\<close>

definition ex_manual_lesson :: Lesson where
  "ex_manual_lesson =
     \<lparr>Lesson.pk = 1, schedule = None, subject = 1, date = ex_monday, group = 1,
      teacher = Some 1, classroom = Some [], start_time = Some 660,
      end_time = Some 720, is_from_schedule = False, lesson_notes = []\<rparr>"

definition ex_store_manual :: store where
  "ex_store_manual = ex_store\<lparr>lessons := [ex_manual_lesson], lesson_seq := 2\<rparr>"

section \<open>Unfolding the model on concrete inputs\<close>

lemmas ex_defs =
  at_def not_posted_def ex_teacher_def ex_schedule_def ex_store_def ex_monday_def ex_from_schedule_form_def
  ex_manual_form_def ex_schedule_form_def ex_lesson_def ex_store1_def ex_store2_def
  ex_schedule_moved_def ex_store1_moved_def ex_store3_def ex_attendance_form_def
  ex_admin_def ex_weekday7_form_def ex_schedule7_def ex_store7_def ex_from_schedule7_form_def
  ex_manual_lesson_def ex_store_manual_def

lemmas query_defs =
  get_schedule_def get_teacher_def get_student_def teacher_of_user_def parent_of_user_def
  works_with_def weekday_of_def weekday_mismatch_def falsy_def att_key_def
  times_reversed_def posted_times_reversed_def column_of_def IntegerField_fits_def
  students_of_group_def default_attendance_def

lemmas lesson_defs =
  add_lesson_def create_lesson_from_schedule_def lesson_from_schedule_def lesson_manual_def
  Lesson_create_def Lesson_save_def Lesson_pre_save_def Lesson_clean_def Lesson_collides_def
  manual_time_info_def fan_out_def bulk_create_def

lemmas schedule_defs =
  add_schedule_def group_time_conflict_def teacher_time_conflict_def exclude_disjoint_def
  Schedule_create_def Schedule_clean_def Schedule_insert_def Schedule_save_def
  created_schedule_str_def
  Schedule_delete_def delete_schedule_def

lemmas attendance_defs =
  edit_attendance_def edit_row_def has_access_def posted_late_def
  posted_grade_def Attendance_save_def Attendance_create_def Attendance_clean_def

section \<open>Schedule conflict detection\<close>

lemma exclude_disjoint_iff:
  "r \<in> set (exclude_disjoint s e rows) \<longleftrightarrow>
     r \<in> set rows \<and> s < Schedule.end_time r \<and> Schedule.start_time r < e"
  by (auto simp: exclude_disjoint_def)

lemma group_time_conflict_iff:
  "group_time_conflict st g wd s e \<noteq> [] \<longleftrightarrow>
     (\<exists>r\<in>set (schedules st). Schedule.group r = g \<and> Schedule.weekday r = wd
        \<and> Schedule.is_active r \<and> s < Schedule.end_time r \<and> Schedule.start_time r < e)"
proof -
  have "group_time_conflict st g wd s e \<noteq> [] \<longleftrightarrow>
          (\<exists>r. r \<in> set (group_time_conflict st g wd s e))"
    by (cases "group_time_conflict st g wd s e") auto
  then show ?thesis
    by (auto simp: group_time_conflict_def exclude_disjoint_iff)
qed

lemma teacher_time_conflict_iff:
  "teacher_time_conflict st t wd s e \<noteq> [] \<longleftrightarrow>
     (\<exists>r\<in>set (schedules st). Schedule.teacher r = t \<and> Schedule.weekday r = wd
        \<and> Schedule.is_active r \<and> s < Schedule.end_time r \<and> Schedule.start_time r < e)"
proof -
  have "teacher_time_conflict st t wd s e \<noteq> [] \<longleftrightarrow>
          (\<exists>r. r \<in> set (teacher_time_conflict st t wd s e))"
    by (cases "teacher_time_conflict st t wd s e") auto
  then show ?thesis
    by (auto simp: teacher_time_conflict_def exclude_disjoint_iff)
qed

lemma add_schedule_reaches_conflict_checks:
  assumes "request.http_method rq = POST"
    and "schedule_form.group rq = Given g" and "schedule_form.subject rq = Given sj"
    and "schedule_form.teacher rq = Given tid" and "schedule_form.weekday rq = Given wd"
    and "raw (schedule_form.start_time rq) \<noteq> []"
    and "as_time (schedule_form.start_time rq) = Some s"
    and "as_time (schedule_form.end_time rq) = Some e"
    and "g \<in> set (groups st)" and "sj \<in> set (subjects st)"
    and "get_teacher st tid = Some t"
    and "request.is_superuser rq
         \<or> (\<exists>own. teacher_of_user st (request.user rq) = Some own \<and> Teacher.pk own = Teacher.pk t)"
    and "raw (schedule_form.start_time rq) < raw (schedule_form.end_time rq)"
    and "sj \<in> set (Teacher.subjects t)" and "works_with t g"
  shows "fst (add_schedule st rq) =
           (if \<not> IntegerField_fits wd then Inl OperationFailed
            else if group_time_conflict st g wd s e \<noteq> [] then Inl GroupTimeConflict
            else if teacher_time_conflict st (Teacher.pk t) wd s e \<noteq> [] then Inl TeacherTimeConflict
            else (case Schedule_create st False t
                          \<lparr>Schedule.pk = 0, group = g, subject = sj,
                           teacher = Teacher.pk t, weekday = wd,
                           start_time = s, end_time = e,
                           classroom = Some (schedule_form.classroom rq),
                           is_active = True\<rparr> of
                    Inl ValidationError \<Rightarrow> Inl ValidationError
                  | Inl _ \<Rightarrow> Inl OperationFailed
                  | Inr st' \<Rightarrow> Inl OperationFailed))"
proof -
  have ne: "raw (schedule_form.end_time rq) \<noteq> []"
    using assms(13) by auto
  have nge: "\<not> raw (schedule_form.end_time rq) \<le> raw (schedule_form.start_time rq)"
    using assms(13) by simp
  show ?thesis
    using assms(1-12,14,15) ne nge
    by (auto simp: add_schedule_def created_schedule_str_def
             split: sum.splits option.splits error.splits)
qed

text \<open>
  C3. Conflict detection in \<open>add_schedule\<close> is half-open interval overlap. For a
  posted candidate \<open>[s1, e1)\<close> that passes the checks before the conflict queries,
  the view answers \<open>GroupTimeConflict\<close> exactly when some active Schedule row of the
  same group and weekday has an interval \<open>[s2, e2)\<close> with \<open>s1 < e2\<close> and
  \<open>s2 < e1\<close>, and \<open>TeacherTimeConflict\<close> exactly when no such row exists and
  some active row of the same teacher and weekday overlaps in the same sense. The
  candidate's times \<open>s1\<close> and \<open>e1\<close> are what the posted strings convert to; the
  check before the queries is on the strings. The rows of the table are rows the
  database holds, so their weekdays fit the column.
\<close>

theorem schedule_conflict_half_open:
  assumes "request.http_method rq = POST"
    and "schedule_form.group rq = Given g" and "schedule_form.subject rq = Given sj"
    and "schedule_form.teacher rq = Given tid" and "schedule_form.weekday rq = Given wd"
    and "raw (schedule_form.start_time rq) \<noteq> []"
    and "as_time (schedule_form.start_time rq) = Some s1"
    and "as_time (schedule_form.end_time rq) = Some e1"
    and "g \<in> set (groups st)" and "sj \<in> set (subjects st)"
    and "get_teacher st tid = Some t"
    and "request.is_superuser rq
         \<or> (\<exists>own. teacher_of_user st (request.user rq) = Some own \<and> Teacher.pk own = Teacher.pk t)"
    and "raw (schedule_form.start_time rq) < raw (schedule_form.end_time rq)"
    and "sj \<in> set (Teacher.subjects t)" and "works_with t g"
    and fits: "\<forall>r\<in>set (schedules st). IntegerField_fits (Schedule.weekday r)"
  shows "(fst (add_schedule st rq) = Inl GroupTimeConflict \<longleftrightarrow>
            (\<exists>r\<in>set (schedules st). Schedule.group r = g \<and> Schedule.weekday r = wd
               \<and> Schedule.is_active r
               \<and> s1 < Schedule.end_time r \<and> Schedule.start_time r < e1))
       \<and> (fst (add_schedule st rq) = Inl TeacherTimeConflict \<longleftrightarrow>
            \<not> (\<exists>r\<in>set (schedules st). Schedule.group r = g \<and> Schedule.weekday r = wd
                 \<and> Schedule.is_active r
                 \<and> s1 < Schedule.end_time r \<and> Schedule.start_time r < e1)
            \<and> (\<exists>r\<in>set (schedules st). Schedule.teacher r = Teacher.pk t \<and> Schedule.weekday r = wd
                 \<and> Schedule.is_active r
                 \<and> s1 < Schedule.end_time r \<and> Schedule.start_time r < e1))"
proof -
  note r = add_schedule_reaches_conflict_checks [OF assms(1-15)]
  have nofit: "\<not> IntegerField_fits wd \<Longrightarrow>
                 group_time_conflict st g wd s1 e1 = []
                 \<and> teacher_time_conflict st (Teacher.pk t) wd s1 e1 = []"
    using fits group_time_conflict_iff [of st g wd s1 e1]
      teacher_time_conflict_iff [of st "Teacher.pk t" wd s1 e1]
    by blast
  have g: "fst (add_schedule st rq) = Inl GroupTimeConflict \<longleftrightarrow>
             group_time_conflict st g wd s1 e1 \<noteq> []"
    unfolding r using nofit by (simp split: sum.splits error.splits)
  have t: "fst (add_schedule st rq) = Inl TeacherTimeConflict \<longleftrightarrow>
             group_time_conflict st g wd s1 e1 = []
             \<and> teacher_time_conflict st (Teacher.pk t) wd s1 e1 \<noteq> []"
    unfolding r using nofit by (simp split: sum.splits error.splits)
  show ?thesis
    unfolding g t
    using group_time_conflict_iff [of st g wd s1 e1]
      teacher_time_conflict_iff [of st "Teacher.pk t" wd s1 e1]
    by blast
qed

text \<open>
  On the small school, whose one row is Monday 09:00 to 10:00 for group 1: the
  candidate 09:30 to 10:30 conflicts, the adjacent candidate 10:00 to 11:00 does not.
\<close>

theorem schedule_conflict_half_open_witness:
  "fst (add_schedule ex_store (ex_schedule_form (at ''09:30'' 570) (at ''10:30'' 630)))
     = Inl GroupTimeConflict
   \<and> fst (add_schedule ex_store (ex_schedule_form (at ''10:00'' 600) (at ''11:00'' 660)))
       \<noteq> Inl GroupTimeConflict
   \<and> fst (add_schedule ex_store (ex_schedule_form (at ''10:00'' 600) (at ''11:00'' 660)))
       \<noteq> Inl TeacherTimeConflict"
proof -
  have a: "fst (add_schedule ex_store (ex_schedule_form (at ''09:30'' 570) (at ''10:30'' 630)))
             = Inl GroupTimeConflict"
    using schedule_conflict_half_open
      [of "ex_schedule_form (at ''09:30'' 570) (at ''10:30'' 630)" 1 1 1 0 570 630
          ex_store ex_teacher]
    by (simp add: ex_defs query_defs)
  have b: "fst (add_schedule ex_store (ex_schedule_form (at ''10:00'' 600) (at ''11:00'' 660)))
             \<noteq> Inl GroupTimeConflict
           \<and> fst (add_schedule ex_store (ex_schedule_form (at ''10:00'' 600) (at ''11:00'' 660)))
               \<noteq> Inl TeacherTimeConflict"
    using schedule_conflict_half_open
      [of "ex_schedule_form (at ''10:00'' 600) (at ''11:00'' 660)" 1 1 1 0 600 660
          ex_store ex_teacher]
    by (simp add: ex_defs query_defs)
  from a b show ?thesis by simp
qed

section \<open>Deleting a Schedule\<close>

lemma delete_schedule_run:
  assumes "get_schedule st sid = Some sch" and "request.http_method rq = POST"
    and "request.is_superuser rq
         \<or> (\<exists>t. teacher_of_user st (request.user rq) = Some t
                \<and> Teacher.pk t = Schedule.teacher sch)"
  shows "delete_schedule st rq sid = (Inr (), Schedule_delete st sid)"
  using assms by (auto simp: delete_schedule_def)

text \<open>
  C1 says that deleting a Schedule leaves the Lessons generated from it in the store.
  On the small school with its Monday lesson, the administrator deletes Schedule 1:
  the lesson, which references it, is gone, and so are its two attendance rows.
\<close>

theorem delete_schedule_removes_lessons_counterexample:
  "ex_lesson \<in> set (lessons ex_store1)
   \<and> Lesson.schedule ex_lesson = Some 1
   \<and> fst (delete_schedule ex_store1 (ex_admin POST) 1) = Inr ()
   \<and> ex_lesson \<notin> set (lessons (snd (delete_schedule ex_store1 (ex_admin POST) 1)))
   \<and> attendances (snd (delete_schedule ex_store1 (ex_admin POST) 1)) = []"
  by (simp add: ex_defs query_defs schedule_defs Let_def)

text \<open>
  C1, amended. A permitted POST to \<open>delete_schedule\<close> deletes, with the Schedule,
  every Lesson whose \<open>schedule\<close> references it and every Attendance row of such a
  Lesson (both foreign keys are declared \<open>on_delete=models.CASCADE\<close>); all other
  Lessons and Attendance rows stay as they are, in their order.
\<close>

theorem delete_schedule_cascades:
  assumes "get_schedule st sid = Some sch" and "request.http_method rq = POST"
    and "request.is_superuser rq
         \<or> (\<exists>t. teacher_of_user st (request.user rq) = Some t
                \<and> Teacher.pk t = Schedule.teacher sch)"
  shows "fst (delete_schedule st rq sid) = Inr ()
       \<and> lessons (snd (delete_schedule st rq sid)) =
           filter (\<lambda>l. Lesson.schedule l \<noteq> Some sid) (lessons st)
       \<and> attendances (snd (delete_schedule st rq sid)) =
           filter (\<lambda>a. Attendance.lesson a
                        \<notin> set (map Lesson.pk
                                 (filter (\<lambda>l. Lesson.schedule l = Some sid) (lessons st))))
             (attendances st)"
  by (simp add: delete_schedule_run [OF assms] Schedule_delete_def Let_def)

text \<open>The administrator deletes Schedule 1 of the small school after its Monday lesson.\<close>

theorem delete_schedule_cascades_witness:
  "fst (delete_schedule ex_store1 (ex_admin POST) 1) = Inr ()
   \<and> lessons (snd (delete_schedule ex_store1 (ex_admin POST) 1)) = []
   \<and> attendances (snd (delete_schedule ex_store1 (ex_admin POST) 1)) = []"
proof -
  have s: "get_schedule ex_store1 1 = Some ex_schedule"
    by (simp add: ex_defs query_defs)
  have m: "request.http_method (ex_admin POST) = POST"
    by (simp add: ex_defs)
  have p: "request.is_superuser (ex_admin POST)
           \<or> (\<exists>t. teacher_of_user ex_store1 (request.user (ex_admin POST)) = Some t
                  \<and> Teacher.pk t = Schedule.teacher ex_schedule)"
    by (simp add: ex_defs)
  have l: "filter (\<lambda>l. Lesson.schedule l \<noteq> Some 1) (lessons ex_store1) = []"
    by (simp add: ex_defs)
  have a: "filter (\<lambda>a. Attendance.lesson a
                        \<notin> set (map Lesson.pk
                                 (filter (\<lambda>l. Lesson.schedule l = Some 1) (lessons ex_store1))))
             (attendances ex_store1) = []"
    by code_simp
  from delete_schedule_cascades [OF s m p] show ?thesis
    unfolding l a .
qed

section \<open>Duplicate detection on the manual path\<close>

lemma filter_nonempty_iff: "filter P xs \<noteq> [] \<longleftrightarrow> (\<exists>x\<in>set xs. P x)"
  by (simp add: filter_empty_conv)

text \<open>
  C2 says that a manual lesson is a duplicate only when subject, group, date and
  \<open>start_time\<close> all match. The store holds the 09:00 lesson of subject 1, group 1 on
  the Monday; the teacher posts a manual lesson for the same subject, group and date
  at 14:00: it is rejected as a duplicate and the store is unchanged.
\<close>

theorem manual_duplicate_ignores_start_time_counterexample:
  "map Lesson.start_time (lessons ex_store1) = [Some 540]
   \<and> as_time (lesson_form.start_time (ex_manual_form (at ''14:00'' 840) not_posted)) = Some 840
   \<and> add_lesson ex_store1 (ex_manual_form (at ''14:00'' 840) not_posted) = (Inl DuplicateLesson, ex_store1)"
  by (simp add: ex_defs query_defs lesson_defs)

text \<open>
  C2, amended. A manual POST to \<open>add_lesson\<close> by a teacher is rejected as
  \<open>DuplicateLesson\<close> exactly when it reaches the duplicate query (the date parses,
  subject and group are selected and exist, the teacher works with the group) and some
  stored Lesson has the same subject, group and date, whatever its \<open>start_time\<close>.
\<close>

theorem manual_duplicate_iff:
  assumes "teacher_of_user st (request.user rq) = Some t"
    and "request.http_method rq = POST"
    and "lesson_form.lesson_type rq \<noteq> Some ''from_schedule''"
  shows "fst (add_lesson st rq) = Inl DuplicateLesson \<longleftrightarrow>
           (\<exists>d sj g. lesson_form.date rq = Given d \<and> lesson_form.subject rq = Given sj
              \<and> lesson_form.group rq = Given g
              \<and> sj \<in> set (subjects st) \<and> g \<in> set (groups st) \<and> works_with t g
              \<and> (\<exists>l\<in>set (lessons st). Lesson.subject l = sj \<and> Lesson.group l = g
                    \<and> Lesson.date l = d))"
  using assms
  by (auto simp: add_lesson_def lesson_manual_def filter_nonempty_iff
      split: field.splits sum.splits prod.splits)

text \<open>The 14:00 manual lesson, with the Monday lesson stored and without it.\<close>

theorem manual_duplicate_iff_witness:
  "fst (add_lesson ex_store1 (ex_manual_form (at ''14:00'' 840) not_posted)) = Inl DuplicateLesson
   \<and> fst (add_lesson ex_store (ex_manual_form (at ''14:00'' 840) not_posted)) \<noteq> Inl DuplicateLesson"
proof -
  have a: "fst (add_lesson ex_store1 (ex_manual_form (at ''14:00'' 840) not_posted)) = Inl DuplicateLesson"
    using manual_duplicate_iff [of ex_store1 "ex_manual_form (at ''14:00'' 840) not_posted" ex_teacher]
    by (simp add: ex_defs query_defs)
  have b: "fst (add_lesson ex_store (ex_manual_form (at ''14:00'' 840) not_posted)) \<noteq> Inl DuplicateLesson"
    using manual_duplicate_iff [of ex_store "ex_manual_form (at ''14:00'' 840) not_posted" ex_teacher]
    by (simp add: ex_defs query_defs)
  from a b show ?thesis by simp
qed

section \<open>The weekday check\<close>

lemma lesson_from_schedule_mismatch:
  "weekday_of d \<noteq> Schedule.weekday sch \<Longrightarrow>
     lesson_from_schedule st sch d room notes = (Inl (weekday_mismatch (Schedule.weekday sch)), st)"
  by (simp add: lesson_from_schedule_def)

text \<open>
  What holds of the weekday check for every Schedule row. Posting a date whose
  weekday differs from the Schedule's weekday never creates a Lesson: both views that
  materialize from a Schedule (\<open>add_lesson\<close> with \<open>lesson_type = from_schedule\<close>,
  and \<open>create_lesson_from_schedule\<close>) end in a rejection and leave the store as it
  was. The rejection is \<open>WeekdayMismatch\<close> when the caller is cleared for the
  Schedule (the views check the caller first) and the Schedule's weekday lies in
  0..6, the values of \<open>Schedule.WEEKDAYS\<close>.
\<close>

lemma weekday_mismatch_in_range:
  assumes "get_schedule st sid = Some sch"
    and "weekday_of d \<noteq> Schedule.weekday sch"
    and "request.http_method rq = POST"
    and "lesson_form.date rq = Given d"
    and "lesson_form.lesson_type rq = Some ''from_schedule''"
    and "lesson_form.schedule_id rq = Given sid"
  shows "isl (fst (add_lesson st rq)) \<and> snd (add_lesson st rq) = st
       \<and> isl (fst (create_lesson_from_schedule st rq sid))
       \<and> snd (create_lesson_from_schedule st rq sid) = st
       \<and> ((\<exists>t. teacher_of_user st (request.user rq) = Some t
                \<and> works_with t (Schedule.group sch))
            \<and> 0 \<le> Schedule.weekday sch \<and> Schedule.weekday sch \<le> 6
            \<longrightarrow> add_lesson st rq = (Inl WeekdayMismatch, st))
       \<and> ((request.is_superuser rq
             \<or> (\<exists>t. teacher_of_user st (request.user rq) = Some t
                    \<and> Teacher.pk t = Schedule.teacher sch))
            \<and> 0 \<le> Schedule.weekday sch \<and> Schedule.weekday sch \<le> 6
            \<longrightarrow> create_lesson_from_schedule st rq sid = (Inl WeekdayMismatch, st))"
proof -
  note m = lesson_from_schedule_mismatch [OF assms(2)]
  have a: "isl (fst (add_lesson st rq)) \<and> snd (add_lesson st rq) = st"
    using assms by (simp add: add_lesson_def m split: option.splits)
  have c: "isl (fst (create_lesson_from_schedule st rq sid))
           \<and> snd (create_lesson_from_schedule st rq sid) = st"
    using assms by (simp add: create_lesson_from_schedule_def m split: option.splits)
  have a': "add_lesson st rq = (Inl WeekdayMismatch, st)"
    if "\<exists>t. teacher_of_user st (request.user rq) = Some t \<and> works_with t (Schedule.group sch)"
      and "0 \<le> Schedule.weekday sch" and "Schedule.weekday sch \<le> 6"
    using assms that by (auto simp: add_lesson_def m weekday_mismatch_def)
  have c': "create_lesson_from_schedule st rq sid = (Inl WeekdayMismatch, st)"
    if "request.is_superuser rq
        \<or> (\<exists>t. teacher_of_user st (request.user rq) = Some t
               \<and> Teacher.pk t = Schedule.teacher sch)"
      and "0 \<le> Schedule.weekday sch" and "Schedule.weekday sch \<le> 6"
    using assms that
    by (auto simp: create_lesson_from_schedule_def m weekday_mismatch_def split: option.splits)
  from a c a' c' show ?thesis by blast
qed

text \<open>The teacher of the small school posts the Tuesday after \<open>ex_monday\<close>.\<close>

lemma weekday_mismatch_in_range_example:
  "add_lesson ex_store (ex_from_schedule_form (ex_monday + 1)) = (Inl WeekdayMismatch, ex_store)
   \<and> create_lesson_from_schedule ex_store (ex_from_schedule_form (ex_monday + 1)) 1
       = (Inl WeekdayMismatch, ex_store)"
proof -
  have s: "get_schedule ex_store 1 = Some ex_schedule"
    by (simp add: ex_defs query_defs)
  have w: "weekday_of (ex_monday + 1) \<noteq> Schedule.weekday ex_schedule"
    by (simp add: ex_defs query_defs)
  have m: "request.http_method (ex_from_schedule_form (ex_monday + 1)) = POST"
    and d: "lesson_form.date (ex_from_schedule_form (ex_monday + 1)) = Given (ex_monday + 1)"
    and t: "lesson_form.lesson_type (ex_from_schedule_form (ex_monday + 1)) = Some ''from_schedule''"
    and i: "lesson_form.schedule_id (ex_from_schedule_form (ex_monday + 1)) = Given 1"
    by (simp_all add: ex_defs)
  have u: "\<exists>t. teacher_of_user ex_store (request.user (ex_from_schedule_form (ex_monday + 1))) = Some t
               \<and> works_with t (Schedule.group ex_schedule)
               \<and> Teacher.pk t = Schedule.teacher ex_schedule"
    by (simp add: ex_defs query_defs)
  have r: "0 \<le> Schedule.weekday ex_schedule \<and> Schedule.weekday ex_schedule \<le> 6"
    by (simp add: ex_defs)
  from weekday_mismatch_in_range [OF s w m d t i] u r show ?thesis
    by blast
qed

text \<open>
  Nothing keeps the weekday of a stored row in 0..6. \<open>add_schedule\<close> tests the
  posted weekday only for being empty and stores \<open>int(weekday)\<close>; no \<open>clean\<close> looks
  at it, and \<open>choices\<close> is not enforced by \<open>save\<close>. The teacher's POST with
  \<open>weekday=7\<close> stores the row (and then ends in the generic handler, as every
  POST of this view that inserts).
\<close>

lemma add_schedule_stores_weekday7:
  "add_schedule ex_store ex_weekday7_form = (Inl OperationFailed, ex_store7)"
  by (simp add: ex_defs query_defs schedule_defs)

lemma weekday_of_range: "0 \<le> weekday_of d \<and> weekday_of d < 7"
  by (simp add: weekday_of_def)

text \<open>
  C7. For every Schedule and every date of another weekday, materializing a Lesson
  is to fail with \<open>WeekdayMismatch\<close>. On the stored row with weekday 7 the code does
  not: every date \<open>d\<close> has another weekday, the views reach the mismatch branch,
  and building its message indexes the seven day names with 7, which raises
  \<open>IndexError\<close>; the generic handler answers. Both views return the generic failure
  on every date, never \<open>WeekdayMismatch\<close>; no Lesson is created.
\<close>

theorem weekday_seven_never_mismatch:
  "get_schedule ex_store7 2 = Some ex_schedule7
   \<and> weekday_of d \<noteq> Schedule.weekday ex_schedule7
   \<and> add_lesson ex_store7 (ex_from_schedule7_form d) = (Inl OperationFailed, ex_store7)
   \<and> create_lesson_from_schedule ex_store7 (ex_from_schedule7_form d) 2
       = (Inl OperationFailed, ex_store7)"
proof -
  have s: "get_schedule ex_store7 2 = Some ex_schedule7"
    by (simp add: ex_defs query_defs)
  have w: "weekday_of d \<noteq> Schedule.weekday ex_schedule7"
    using weekday_of_range [of d] by (simp add: ex_defs)
  have l: "lesson_from_schedule ex_store7 ex_schedule7 d [] [] = (Inl OperationFailed, ex_store7)"
    unfolding lesson_from_schedule_mismatch [OF w]
    by (simp add: ex_defs weekday_mismatch_def)
  have t: "teacher_of_user ex_store7 10 = Some ex_teacher"
    by (simp add: ex_defs query_defs)
  have g: "works_with ex_teacher (Schedule.group ex_schedule7)"
    by (simp add: ex_defs query_defs)
  have k: "Teacher.pk ex_teacher = Schedule.teacher ex_schedule7"
    by (simp add: ex_defs)
  have a: "add_lesson ex_store7 (ex_from_schedule7_form d) = (Inl OperationFailed, ex_store7)"
    by (simp add: add_lesson_def ex_from_schedule7_form_def s t g l)
  have c: "create_lesson_from_schedule ex_store7 (ex_from_schedule7_form d) 2
             = (Inl OperationFailed, ex_store7)"
    by (simp add: create_lesson_from_schedule_def ex_from_schedule7_form_def s t k l)
  from s w a c show ?thesis by simp
qed

text \<open>The Tuesday after \<open>ex_monday\<close>, posted for the row with weekday 7.\<close>

theorem weekday_seven_never_mismatch_witness:
  "fst (add_lesson ex_store7 (ex_from_schedule7_form (ex_monday + 1))) = Inl OperationFailed
   \<and> fst (add_lesson ex_store7 (ex_from_schedule7_form (ex_monday + 1))) \<noteq> Inl WeekdayMismatch
   \<and> fst (create_lesson_from_schedule ex_store7 (ex_from_schedule7_form (ex_monday + 1)) 2)
       \<noteq> Inl WeekdayMismatch
   \<and> lessons (snd (add_lesson ex_store7 (ex_from_schedule7_form (ex_monday + 1)))) = []"
  using weekday_seven_never_mismatch [of "ex_monday + 1"]
  by (simp add: ex_store7_def ex_store_def)

section \<open>Rejections of add_lesson leave the store alone\<close>

lemma lesson_from_schedule_rejected:
  assumes "fst (lesson_from_schedule st sch d room notes) = Inl e" and "e \<noteq> OperationFailed"
  shows "snd (lesson_from_schedule st sch d room notes) = st"
proof (cases "weekday_of d \<noteq> Schedule.weekday sch")
  case True
  then show ?thesis by (simp add: lesson_from_schedule_def)
next
  case False
  show ?thesis
  proof (cases "filter (\<lambda>l. Lesson.schedule l = Some (Schedule.pk sch) \<and> Lesson.date l = d)
                  (lessons st) \<noteq> []")
    case True
    with False show ?thesis by (simp add: lesson_from_schedule_def)
  next
    case dup: False
    from False dup assms show ?thesis
      by (simp add: lesson_from_schedule_def split: sum.splits prod.splits)
  qed
qed

lemma lesson_manual_rejected:
  assumes "fst (lesson_manual st t rq d) = Inl e" and "e \<noteq> OperationFailed"
  shows "snd (lesson_manual st t rq d) = st"
proof (cases "lesson_form.subject rq")
  case Missing
  then show ?thesis by (simp add: lesson_manual_def)
next
  case Malformed
  then show ?thesis by (cases "lesson_form.group rq") (simp_all add: lesson_manual_def)
next
  case sj: (Given sj)
  show ?thesis
  proof (cases "lesson_form.group rq")
    case Missing
    then show ?thesis by (simp add: lesson_manual_def)
  next
    case Malformed
    with sj show ?thesis by (simp add: lesson_manual_def)
  next
    case (Given g)
    with sj assms show ?thesis
      by (simp add: lesson_manual_def split: if_splits sum.splits prod.splits)
  qed
qed

text \<open>
  C10. When \<open>add_lesson\<close> rejects a request at one of its checks (no teacher
  profile, missing date, missing schedule or subject/group selection, teacher not
  working with the group, weekday mismatch, duplicate lesson), the store it leaves is the
  store it got: no Lesson row and no Attendance row is created.
\<close>

theorem add_lesson_rejection_atomic:
  assumes "fst (add_lesson st rq) = Inl e"
    and "e \<in> {NoTeacherProfile, MissingDate, MissingSchedule, MissingSubjectGroup,
               NotAuthorized, WeekdayMismatch, DuplicateLesson}"
  shows "snd (add_lesson st rq) = st"
proof -
  from assms(2) have ne: "e \<noteq> OperationFailed" by auto
  show ?thesis
  proof (cases "teacher_of_user st (request.user rq)")
    case None
    then show ?thesis by (simp add: add_lesson_def)
  next
    case t: (Some t)
    show ?thesis
    proof (cases "lesson_form.date rq")
      case Missing
      with t show ?thesis by (simp add: add_lesson_def)
    next
      case Malformed
      with t show ?thesis by (simp add: add_lesson_def)
    next
      case d: (Given d)
      show ?thesis
      proof (cases "request.http_method rq \<noteq> POST")
        case True
        with t show ?thesis by (simp add: add_lesson_def)
      next
        case post: False
        show ?thesis
        proof (cases "lesson_form.lesson_type rq = Some ''from_schedule''")
          case manual: False
          with t d post have "add_lesson st rq = lesson_manual st t rq d"
            by (simp add: add_lesson_def)
          with assms(1) ne show ?thesis
            by (simp add: lesson_manual_rejected)
        next
          case True
          show ?thesis
          proof (cases "lesson_form.schedule_id rq")
            case Missing
            with t d post True show ?thesis by (simp add: add_lesson_def)
          next
            case Malformed
            with t d post True show ?thesis by (simp add: add_lesson_def)
          next
            case sid: (Given sid)
            show ?thesis
            proof (cases "get_schedule st sid")
              case None
              with t d post True sid show ?thesis by (simp add: add_lesson_def)
            next
              case (Some sch)
              show ?thesis
              proof (cases "works_with t (Schedule.group sch)")
                case False
                with t d post True sid Some show ?thesis by (simp add: add_lesson_def)
              next
                case w: True
                with t d post True sid Some
                have "add_lesson st rq =
                        lesson_from_schedule st sch d (lesson_form.classroom rq)
                          (lesson_form.lesson_notes rq)"
                  by (simp add: add_lesson_def)
                with assms(1) ne show ?thesis
                  by (simp add: lesson_from_schedule_rejected)
              qed
            qed
          qed
        qed
      qed
    qed
  qed
qed

text \<open>The duplicate 14:00 manual lesson on the small school.\<close>

theorem add_lesson_rejection_atomic_witness:
  "fst (add_lesson ex_store1 (ex_manual_form (at ''14:00'' 840) not_posted)) = Inl DuplicateLesson
   \<and> snd (add_lesson ex_store1 (ex_manual_form (at ''14:00'' 840) not_posted)) = ex_store1"
proof -
  have f: "fst (add_lesson ex_store1 (ex_manual_form (at ''14:00'' 840) not_posted)) = Inl DuplicateLesson"
    by (simp add: ex_defs query_defs lesson_defs)
  from add_lesson_rejection_atomic [OF f] f show ?thesis by simp
qed

section \<open>The attendance fan-out of a new Lesson\<close>

lemma get_schedule_pk: "get_schedule st sid = Some sch \<Longrightarrow> Schedule.pk sch = sid"
  by (auto simp: get_schedule_def find_Some_iff)

lemma filter_default_rows:
  "filter (\<lambda>a. Attendance.lesson a = lid) (map (default_attendance lid) ss)
     = map (default_attendance lid) ss"
  by (induction ss) (simp_all add: default_attendance_def)

lemma fan_out_rows:
  assumes "fan_out st lid g = Inr st'"
    and "lid \<notin> Attendance.lesson ` set (attendances st)"
  shows "filter (\<lambda>a. Attendance.lesson a = lid) (attendances st')
           = map (default_attendance lid) (students_of_group st g)
       \<and> lessons st' = lessons st \<and> students st' = students st"
proof -
  from assms(1) have st': "st' = st\<lparr>attendances := attendances st
                              @ map (default_attendance lid) (students_of_group st g)\<rparr>"
    by (simp add: fan_out_def bulk_create_def split: if_splits)
  from assms(2) have "filter (\<lambda>a. Attendance.lesson a = lid) (attendances st) = []"
    by (auto simp: filter_empty_conv)
  with st' show ?thesis
    by (simp add: filter_default_rows)
qed

lemma Lesson_create_appends:
  assumes "Lesson_create st rv l = Inr (lid, st1)"
  shows "lid = lesson_seq st \<and> attendances st1 = attendances st \<and> students st1 = students st
       \<and> (\<exists>l'. Lesson_pre_save st rv (l\<lparr>Lesson.pk := lesson_seq st\<rparr>) = Inr l'
               \<and> lessons st1 = lessons st @ [l'])"
  using assms by (auto simp: Lesson_create_def split: sum.splits if_splits)

lemma Lesson_pre_save_pk:
  "Lesson_pre_save st rv l = Inr l' \<Longrightarrow> Lesson.pk l' = Lesson.pk l"
  by (auto simp: Lesson_pre_save_def Let_def split: option.splits sum.splits if_splits)

lemma Lesson_pre_save_manual_group:
  "Lesson_pre_save st rv l = Inr l' \<Longrightarrow> Lesson.schedule l = None \<Longrightarrow> Lesson.group l' = Lesson.group l"
  by (auto simp: Lesson_pre_save_def split: sum.splits)

lemma Lesson_pre_save_schedule_group:
  "Lesson_pre_save st rv l = Inr l' \<Longrightarrow> Lesson.schedule l = Some sid \<Longrightarrow> Lesson.is_from_schedule l
     \<Longrightarrow> get_schedule st sid = Some sch \<Longrightarrow> Lesson.group l' = Schedule.group sch"
  by (auto simp: Lesson_pre_save_def Let_def split: sum.splits)

lemma lesson_from_schedule_success:
  assumes "lesson_from_schedule st sch d room notes = (Inr (Some lid), st')"
    and "get_schedule st (Schedule.pk sch) = Some sch"
    and "lesson_seq st \<notin> Attendance.lesson ` set (attendances st)"
  shows "\<exists>l. lessons st' = lessons st @ [l] \<and> Lesson.pk l = lid
           \<and> filter (\<lambda>a. Attendance.lesson a = lid) (attendances st')
               = map (default_attendance lid) (students_of_group st' (Lesson.group l))"
proof -
  let ?new = "\<lparr>Lesson.pk = 0, schedule = Some (Schedule.pk sch),
                 subject = Schedule.subject sch, date = d, group = Schedule.group sch,
                 teacher = Some (Schedule.teacher sch),
                 classroom = (if room = [] then Schedule.classroom sch else Some room),
                 start_time = Some (Schedule.start_time sch),
                 end_time = Some (Schedule.end_time sch),
                 is_from_schedule = True, lesson_notes = notes\<rparr>"
  let ?rv = "times_reversed (Some (Schedule.start_time sch)) (Some (Schedule.end_time sch))"
  have "\<exists>st1. Lesson_create st ?rv ?new = Inr (lid, st1)
             \<and> fan_out st1 lid (Schedule.group sch) = Inr st'"
  proof (cases "Lesson_create st ?rv ?new")
    case (Inl e)
    with assms(1) show ?thesis
      by (simp add: lesson_from_schedule_def split: if_splits)
  next
    case (Inr r)
    obtain lid' st1 where r: "r = (lid', st1)" by (cases r)
    show ?thesis
    proof (cases "fan_out st1 lid' (Schedule.group sch)")
      case (Inl e)
      with Inr r assms(1) show ?thesis
        by (simp add: lesson_from_schedule_def split: if_splits)
    next
      case fo: (Inr st2)
      with Inr r assms(1) show ?thesis
        by (simp add: lesson_from_schedule_def split: if_splits)
    qed
  qed
  then obtain st1 where
    c: "Lesson_create st ?rv ?new = Inr (lid, st1)" and f: "fan_out st1 lid (Schedule.group sch) = Inr st'"
    by blast
  from Lesson_create_appends [OF c] obtain l' where
    lid: "lid = lesson_seq st" and a1: "attendances st1 = attendances st"
    and s1: "students st1 = students st"
    and p: "Lesson_pre_save st ?rv (?new\<lparr>Lesson.pk := lesson_seq st\<rparr>) = Inr l'"
    and l1: "lessons st1 = lessons st @ [l']"
    by blast
  have pk: "Lesson.pk l' = lid"
    using Lesson_pre_save_pk [OF p] lid by simp
  have g: "Lesson.group l' = Schedule.group sch"
    using Lesson_pre_save_schedule_group [OF p _ _ assms(2)] by simp
  from assms(3) lid a1 have "lid \<notin> Attendance.lesson ` set (attendances st1)"
    by simp
  from fan_out_rows [OF f this] l1 pk g show ?thesis
    by (simp add: students_of_group_def)
qed

lemma lesson_manual_success:
  assumes "lesson_manual st t rq d = (Inr (Some lid), st')"
    and "lesson_seq st \<notin> Attendance.lesson ` set (attendances st)"
  shows "\<exists>l. lessons st' = lessons st @ [l] \<and> Lesson.pk l = lid
           \<and> filter (\<lambda>a. Attendance.lesson a = lid) (attendances st')
               = map (default_attendance lid) (students_of_group st' (Lesson.group l))"
proof -
  from assms(1) obtain sj g where sj: "lesson_form.subject rq = Given sj"
    and g: "lesson_form.group rq = Given g"
    by (cases "lesson_form.subject rq"; cases "lesson_form.group rq")
       (simp_all add: lesson_manual_def)
  from assms(1) sj g obtain s e where s: "column_of (lesson_form.start_time rq) = Inr s"
    and e: "column_of (lesson_form.end_time rq) = Inr e"
    by (cases "column_of (lesson_form.start_time rq)"; cases "column_of (lesson_form.end_time rq)")
       (simp_all add: lesson_manual_def split: if_splits)
  let ?new = "\<lparr>Lesson.pk = 0, schedule = None, subject = sj, date = d, group = g,
                        teacher = Some (Teacher.pk t),
                        classroom = Some (lesson_form.classroom rq),
                        start_time = s, end_time = e,
                        is_from_schedule = False,
                        lesson_notes = lesson_form.lesson_notes rq\<rparr>"
  let ?rv = "posted_times_reversed (lesson_form.start_time rq) (lesson_form.end_time rq)"
  have "\<exists>st1. Lesson_create st ?rv ?new = Inr (lid, st1) \<and> fan_out st1 lid g = Inr st'"
  proof (cases "Lesson_create st ?rv ?new")
    case (Inl er)
    with assms(1) sj g s e show ?thesis
      by (simp add: lesson_manual_def split: if_splits)
  next
    case (Inr r)
    obtain lid' st1 where r: "r = (lid', st1)" by (cases r)
    show ?thesis
    proof (cases "fan_out st1 lid' g")
      case (Inl er)
      with Inr r assms(1) sj g s e show ?thesis
        by (simp add: lesson_manual_def split: if_splits sum.splits)
    next
      case fo: (Inr st2)
      with Inr r assms(1) sj g s e show ?thesis
        by (simp add: lesson_manual_def split: if_splits sum.splits)
    qed
  qed
  then obtain st1 where
    c: "Lesson_create st ?rv ?new = Inr (lid, st1)" and f: "fan_out st1 lid g = Inr st'"
    by blast
  from Lesson_create_appends [OF c] obtain l' where
    lid: "lid = lesson_seq st" and a1: "attendances st1 = attendances st"
    and s1: "students st1 = students st"
    and p: "Lesson_pre_save st ?rv (?new\<lparr>Lesson.pk := lesson_seq st\<rparr>) = Inr l'"
    and l1: "lessons st1 = lessons st @ [l']"
    by blast
  have pk: "Lesson.pk l' = lid"
    using Lesson_pre_save_pk [OF p] lid by simp
  have gl: "Lesson.group l' = g"
    using Lesson_pre_save_manual_group [OF p] by simp
  from assms(2) lid a1 have "lid \<notin> Attendance.lesson ` set (attendances st1)"
    by simp
  from fan_out_rows [OF f this] l1 pk gl show ?thesis
    by (simp add: students_of_group_def)
qed

lemma add_lesson_success_cases:
  assumes "add_lesson st rq = (Inr (Some lid), st')"
  shows "(\<exists>t d. lesson_manual st t rq d = (Inr (Some lid), st'))
       \<or> (\<exists>sch d. get_schedule st (Schedule.pk sch) = Some sch
              \<and> lesson_from_schedule st sch d (lesson_form.classroom rq)
                   (lesson_form.lesson_notes rq) = (Inr (Some lid), st'))"
proof (cases "teacher_of_user st (request.user rq)")
  case None
  with assms show ?thesis by (simp add: add_lesson_def)
next
  case t: (Some t)
  show ?thesis
  proof (cases "lesson_form.date rq")
    case Missing
    with t assms show ?thesis by (simp add: add_lesson_def split: if_splits)
  next
    case Malformed
    with t assms show ?thesis by (simp add: add_lesson_def split: if_splits)
  next
    case d: (Given d)
    show ?thesis
    proof (cases "request.http_method rq \<noteq> POST")
      case True
      with t assms show ?thesis by (simp add: add_lesson_def)
    next
      case post: False
      show ?thesis
      proof (cases "lesson_form.lesson_type rq = Some ''from_schedule''")
        case False
        with t d post assms have "lesson_manual st t rq d = (Inr (Some lid), st')"
          by (simp add: add_lesson_def)
        then show ?thesis by blast
      next
        case True
        show ?thesis
        proof (cases "lesson_form.schedule_id rq")
          case Missing
          with t d post True assms show ?thesis by (simp add: add_lesson_def)
        next
          case Malformed
          with t d post True assms show ?thesis by (simp add: add_lesson_def)
        next
          case sid: (Given sid)
          show ?thesis
          proof (cases "get_schedule st sid")
            case None
            with t d post True sid assms show ?thesis by (simp add: add_lesson_def)
          next
            case (Some sch)
            show ?thesis
            proof (cases "works_with t (Schedule.group sch)")
              case False
              with t d post True sid Some assms show ?thesis by (simp add: add_lesson_def)
            next
              case w: True
              with t d post True sid Some assms
              have "lesson_from_schedule st sch d (lesson_form.classroom rq)
                      (lesson_form.lesson_notes rq) = (Inr (Some lid), st')"
                by (simp add: add_lesson_def)
              moreover have "get_schedule st (Schedule.pk sch) = Some sch"
                using Some get_schedule_pk [OF Some] by simp
              ultimately show ?thesis by blast
            qed
          qed
        qed
      qed
    qed
  qed
qed

lemma create_lesson_from_schedule_success_cases:
  assumes "create_lesson_from_schedule st rq sid = (Inr (Some lid), st')"
  shows "\<exists>sch d. get_schedule st (Schedule.pk sch) = Some sch
              \<and> lesson_from_schedule st sch d (lesson_form.classroom rq)
                   (lesson_form.lesson_notes rq) = (Inr (Some lid), st')"
proof (cases "get_schedule st sid")
  case None
  with assms show ?thesis by (simp add: create_lesson_from_schedule_def)
next
  case (Some sch)
  have pk: "get_schedule st (Schedule.pk sch) = Some sch"
    using Some get_schedule_pk [OF Some] by simp
  show ?thesis
  proof (cases "lesson_form.date rq")
    case Missing
    with Some assms show ?thesis
      by (simp add: create_lesson_from_schedule_def split: if_splits)
  next
    case Malformed
    with Some assms show ?thesis
      by (simp add: create_lesson_from_schedule_def split: if_splits)
  next
    case (Given d)
    with Some assms
    have "lesson_from_schedule st sch d (lesson_form.classroom rq)
            (lesson_form.lesson_notes rq) = (Inr (Some lid), st')"
      by (simp add: create_lesson_from_schedule_def split: if_splits)
    with pk show ?thesis by blast
  qed
qed

text \<open>
  What holds when a view reports success. When \<open>add_lesson\<close> (from a Schedule or
  manually) or \<open>create_lesson_from_schedule\<close> returns the key of a new Lesson, on a
  store in which no Attendance row refers to that key, the store has one new Lesson,
  and the Attendance rows of that Lesson are exactly the default row
  (\<open>attended=False, late=False, grade=None\<close>) of each student of its group, one per
  student. The report of success comes after the fan-out, so this says nothing of a
  Lesson that is inserted on a path that does not reach the fan-out.
\<close>

lemma fan_out_after_success:
  assumes "lesson_seq st \<notin> Attendance.lesson ` set (attendances st)"
    and "add_lesson st rq = (Inr (Some lid), st')
         \<or> create_lesson_from_schedule st rq sid = (Inr (Some lid), st')"
  shows "\<exists>l. lessons st' = lessons st @ [l] \<and> Lesson.pk l = lid
           \<and> filter (\<lambda>a. Attendance.lesson a = lid) (attendances st')
               = map (default_attendance lid) (students_of_group st' (Lesson.group l))
           \<and> length (filter (\<lambda>a. Attendance.lesson a = lid) (attendances st'))
               = length (students_of_group st' (Lesson.group l))"
proof -
  have "\<exists>l. lessons st' = lessons st @ [l] \<and> Lesson.pk l = lid
           \<and> filter (\<lambda>a. Attendance.lesson a = lid) (attendances st')
               = map (default_attendance lid) (students_of_group st' (Lesson.group l))"
    using assms(2)
  proof
    assume "add_lesson st rq = (Inr (Some lid), st')"
    from add_lesson_success_cases [OF this] show ?thesis
      using lesson_manual_success [OF _ assms(1)] lesson_from_schedule_success [OF _ _ assms(1)]
      by blast
  next
    assume "create_lesson_from_schedule st rq sid = (Inr (Some lid), st')"
    from create_lesson_from_schedule_success_cases [OF this] show ?thesis
      using lesson_from_schedule_success [OF _ _ assms(1)] by blast
  qed
  then obtain l where l: "lessons st' = lessons st @ [l]" "Lesson.pk l = lid"
    "filter (\<lambda>a. Attendance.lesson a = lid) (attendances st')
       = map (default_attendance lid) (students_of_group st' (Lesson.group l))"
    by blast
  from l(3) have "length (filter (\<lambda>a. Attendance.lesson a = lid) (attendances st'))
                    = length (students_of_group st' (Lesson.group l))"
    by simp
  with l show ?thesis by blast
qed

text \<open>The Monday lesson of the small school: group 1 has two students.\<close>

lemma fan_out_after_success_example:
  "add_lesson ex_store (ex_from_schedule_form ex_monday) = (Inr (Some 1), ex_store1)
   \<and> create_lesson_from_schedule ex_store (ex_from_schedule_form ex_monday) 1
       = (Inr (Some 1), ex_store1)
   \<and> lessons ex_store1 = lessons ex_store @ [ex_lesson]
   \<and> filter (\<lambda>a. Attendance.lesson a = 1) (attendances ex_store1)
       = map (default_attendance 1) (students_of_group ex_store1 1)
   \<and> length (filter (\<lambda>a. Attendance.lesson a = 1) (attendances ex_store1)) = 2
   \<and> fst (add_lesson ex_store (ex_manual_form (at ''11:00'' 660) not_posted)) = Inr (Some 1)
   \<and> length (filter (\<lambda>a. Attendance.lesson a = 1)
               (attendances (snd (add_lesson ex_store (ex_manual_form (at ''11:00'' 660) not_posted))))) = 2"
proof -
  have f: "lesson_seq ex_store \<notin> Attendance.lesson ` set (attendances ex_store)"
    by (simp add: ex_defs)
  have r: "add_lesson ex_store (ex_from_schedule_form ex_monday) = (Inr (Some 1), ex_store1)"
    by (simp add: ex_defs query_defs lesson_defs)
  have c: "create_lesson_from_schedule ex_store (ex_from_schedule_form ex_monday) 1
             = (Inr (Some 1), ex_store1)"
    by (simp add: ex_defs query_defs lesson_defs)
  from fan_out_after_success [OF f disjI1 [OF r]] obtain l where
    l: "lessons ex_store1 = lessons ex_store @ [l]"
    and rows: "filter (\<lambda>a. Attendance.lesson a = 1) (attendances ex_store1)
                 = map (default_attendance 1) (students_of_group ex_store1 (Lesson.group l))"
    by blast
  from l have "l = ex_lesson" by (simp add: ex_defs)
  with l rows have first:
    "lessons ex_store1 = lessons ex_store @ [ex_lesson]
     \<and> filter (\<lambda>a. Attendance.lesson a = 1) (attendances ex_store1)
         = map (default_attendance 1) (students_of_group ex_store1 1)
     \<and> length (filter (\<lambda>a. Attendance.lesson a = 1) (attendances ex_store1)) = 2"
    by (simp add: ex_defs query_defs)
  let ?st = "snd (add_lesson ex_store (ex_manual_form (at ''11:00'' 660) not_posted))"
  have ok: "fst (add_lesson ex_store (ex_manual_form (at ''11:00'' 660) not_posted)) = Inr (Some 1)"
    by (simp add: ex_defs query_defs lesson_defs)
  then have m: "add_lesson ex_store (ex_manual_form (at ''11:00'' 660) not_posted) = (Inr (Some 1), ?st)"
    by (simp add: prod_eq_iff)
  have g: "map Lesson.group (lessons ?st) = [1]"
    by (simp add: ex_defs query_defs lesson_defs)
  have n: "length (students_of_group ?st 1) = 2"
    by (simp add: ex_defs query_defs lesson_defs)
  from fan_out_after_success [OF f disjI1 [OF m]] obtain l' where
    l': "lessons ?st = lessons ex_store @ [l']"
    and len: "length (filter (\<lambda>a. Attendance.lesson a = 1) (attendances ?st))
                = length (students_of_group ?st (Lesson.group l'))"
    by blast
  from l' g have "Lesson.group l' = 1"
    by (simp add: ex_defs)
  with len n have "length (filter (\<lambda>a. Attendance.lesson a = 1) (attendances ?st)) = 2"
    by simp
  with r c first ok show ?thesis
    by blast
qed

text \<open>
  The fan-out is not reached on every path that inserts a Lesson. On the manual
  path the success message is built between the insert and the fan-out, and with both
  times posted it calls \<open>get_time_range\<close> on the posted strings: the view never
  reports success and never creates an Attendance row.
\<close>

lemma manual_with_both_times_skips_fan_out:
  assumes "raw (lesson_form.start_time rq) \<noteq> []" and "raw (lesson_form.end_time rq) \<noteq> []"
  shows "fst (lesson_manual st t rq d) \<noteq> Inr (Some lid)
       \<and> attendances (snd (lesson_manual st t rq d)) = attendances st"
proof -
  have *: "attendances st1 = attendances st" if "Lesson_create st rv l = Inr (k, st1)" for rv l k st1
    using Lesson_create_appends [OF that] by simp
  show ?thesis
    using assms
    by (auto simp: lesson_manual_def manual_time_info_def dest: *
             split: field.splits sum.splits prod.splits)
qed

text \<open>
  C9. After a Lesson is materialized for a group with N students, exactly N
  Attendance rows are to exist for it. On the manual path of \<open>add_lesson\<close> the code
  misses this when both times are posted. The teacher of the small school posts
  subject 1, group 1 (two students), \<open>ex_monday\<close>, 11:00 to 12:00: the Lesson is
  inserted with key 1, the success message raises \<open>AttributeError\<close> in
  \<open>get_time_range\<close>, the handler answers with the generic failure before the
  fan-out, and the Lesson stays in the store with no Attendance row. The path from a
  Schedule runs the same fan-out and reaches it.
\<close>

theorem manual_lesson_with_times_has_no_attendance:
  "add_lesson ex_store (ex_manual_form (at ''11:00'' 660) (at ''12:00'' 720))
     = (Inl OperationFailed, ex_store_manual)
   \<and> lessons ex_store_manual = [ex_manual_lesson]
   \<and> length (students_of_group ex_store_manual (Lesson.group ex_manual_lesson)) = 2
   \<and> filter (\<lambda>a. Attendance.lesson a = Lesson.pk ex_manual_lesson)
        (attendances ex_store_manual) = []"
  by (simp add: ex_defs query_defs lesson_defs)

section \<open>The attendance reconciler\<close>

lemma missing_attendance_lesson:
  "a \<in> set (missing_attendance st l) \<Longrightarrow> Attendance.lesson a = Lesson.pk l"
  by (auto simp: missing_attendance_def default_attendance_def)

lemma missing_attendance_iff:
  "a \<in> set (missing_attendance st l) \<longleftrightarrow>
     (\<exists>s\<in>set (students st). Student.group s = Lesson.group l
        \<and> (Lesson.pk l, Student.pk s) \<notin> att_key ` set (attendances st)
        \<and> a = default_attendance (Lesson.pk l) s)"
  by (force simp: missing_attendance_def students_of_group_def att_key_def image_iff)

lemma att_key_default: "att_key (default_attendance lid s) = (lid, Student.pk s)"
  by (simp add: att_key_def default_attendance_def)

lemma distinct_missing_keys:
  assumes "distinct (map Student.pk (students st))"
  shows "distinct (map att_key (missing_attendance st l))"
proof -
  have "map att_key (missing_attendance st l)
          = map (\<lambda>s. (Lesson.pk l, Student.pk s))
              (filter (\<lambda>s. Student.pk s \<notin> set (map Attendance.student
                     (filter (\<lambda>a. Attendance.lesson a = Lesson.pk l) (attendances st))))
                 (students_of_group st (Lesson.group l)))"
    by (simp add: missing_attendance_def att_key_default comp_def)
  moreover have "distinct (map Student.pk
              (filter (\<lambda>s. Student.pk s \<notin> set (map Attendance.student
                     (filter (\<lambda>a. Attendance.lesson a = Lesson.pk l) (attendances st))))
                 (students_of_group st (Lesson.group l))))"
    using assms by (simp add: students_of_group_def distinct_map_filter)
  ultimately show ?thesis
    by (simp add: distinct_map inj_on_def)
qed

lemma missing_keys_fresh:
  "a \<in> set (missing_attendance st l) \<Longrightarrow> att_key a \<notin> att_key ` set (attendances st)"
  by (auto simp: missing_attendance_iff att_key_default)

lemma bulk_create_missing:
  assumes "distinct (map Student.pk (students st))"
  shows "bulk_create st (missing_attendance st l)
           = Inr (st\<lparr>attendances := attendances st @ missing_attendance st l\<rparr>)"
  using distinct_missing_keys [OF assms, of l] missing_keys_fresh [of _ st l]
  by (auto simp: bulk_create_def list_all_iff)

lemma missing_attendance_other_lesson:
  assumes "\<forall>a\<in>set rows. Attendance.lesson a \<noteq> Lesson.pk l"
  shows "missing_attendance (st\<lparr>attendances := attendances st @ rows\<rparr>) l = missing_attendance st l"
proof -
  from assms have "filter (\<lambda>a. Attendance.lesson a = Lesson.pk l) rows = []"
    by (auto simp: filter_empty_conv)
  then show ?thesis
    by (simp add: missing_attendance_def students_of_group_def)
qed

lemma reconcile_run:
  assumes "distinct (map Student.pk (students st))" and "distinct (map Lesson.pk ls)"
  shows "reconcile ls n st =
           (Inr (n + length (concat (map (missing_attendance st) ls))),
            st\<lparr>attendances := attendances st @ concat (map (missing_attendance st) ls)\<rparr>)"
  using assms
proof (induction ls arbitrary: n st)
  case Nil
  then show ?case by simp
next
  case (Cons l ls)
  let ?rows = "missing_attendance st l"
  let ?st' = "st\<lparr>attendances := attendances st @ ?rows\<rparr>"
  have same: "map (missing_attendance ?st') ls = map (missing_attendance st) ls"
  proof (rule map_cong [OF refl])
    fix l' assume "l' \<in> set ls"
    with Cons.prems(2) have "Lesson.pk l' \<noteq> Lesson.pk l" by (force simp: image_iff)
    then have "\<forall>a\<in>set ?rows. Attendance.lesson a \<noteq> Lesson.pk l'"
      using missing_attendance_lesson [of _ st l] by auto
    then show "missing_attendance ?st' l' = missing_attendance st l'"
      by (rule missing_attendance_other_lesson)
  qed
  have ih: "reconcile ls m ?st' =
              (Inr (m + length (concat (map (missing_attendance st) ls))),
               st\<lparr>attendances := attendances st @ ?rows @ concat (map (missing_attendance st) ls)\<rparr>)"
    for m
    using Cons.IH [of ?st' m] Cons.prems by (simp add: same)
  show ?case
  proof (cases "?rows = []")
    case True
    then have "?st' = st" by simp
    with ih [of n] True show ?thesis by simp
  next
    case False
    with ih [of "n + length ?rows"] bulk_create_missing [OF Cons.prems(1), of l] show ?thesis
      by (simp add: Let_def)
  qed
qed

lemma reconcile_nothing:
  "\<forall>l\<in>set ls. missing_attendance st l = [] \<Longrightarrow> reconcile ls n st = (Inr n, st)"
  by (induction ls arbitrary: n) simp_all

lemma missing_attendance_after:
  assumes "l \<in> set ls"
  shows "missing_attendance
           (st\<lparr>attendances := attendances st @ concat (map (missing_attendance st) ls)\<rparr>) l = []"
proof -
  let ?st' = "st\<lparr>attendances := attendances st @ concat (map (missing_attendance st) ls)\<rparr>"
  have "a \<notin> set (missing_attendance ?st' l)" for a
  proof
    assume "a \<in> set (missing_attendance ?st' l)"
    then obtain s where s: "s \<in> set (students st)" "Student.group s = Lesson.group l"
      and new: "(Lesson.pk l, Student.pk s) \<notin> att_key ` set (attendances ?st')"
      by (auto simp: missing_attendance_iff)
    from new have old: "(Lesson.pk l, Student.pk s) \<notin> att_key ` set (attendances st)"
      by auto
    with s have "default_attendance (Lesson.pk l) s \<in> set (missing_attendance st l)"
      by (auto simp: missing_attendance_iff)
    with assms have "default_attendance (Lesson.pk l) s \<in> set (attendances ?st')"
      by auto
    then have "att_key (default_attendance (Lesson.pk l) s) \<in> att_key ` set (attendances ?st')"
      by (rule imageI)
    with new show False by (simp add: att_key_default)
  qed
  then show ?thesis by (cases "missing_attendance ?st' l") auto
qed

lemma distinct_new_keys:
  assumes "distinct (map Student.pk (students st))" and "distinct (map Lesson.pk ls)"
  shows "distinct (map att_key (concat (map (missing_attendance st) ls)))"
  using assms(2)
proof (induction ls)
  case Nil
  then show ?case by simp
next
  case (Cons l ls)
  have "att_key a \<noteq> att_key b"
    if "a \<in> set (missing_attendance st l)" and "b \<in> set (missing_attendance st l')" and "l' \<in> set ls"
    for a b l'
  proof -
    from that(3) Cons.prems have "Lesson.pk l' \<noteq> Lesson.pk l" by (force simp: image_iff)
    with that missing_attendance_lesson [of a st l] missing_attendance_lesson [of b st l']
    show ?thesis by (auto simp: att_key_def)
  qed
  then have "set (map att_key (missing_attendance st l))
               \<inter> set (map att_key (concat (map (missing_attendance st) ls))) = {}"
    by (fastforce simp: disjoint_iff)
  with Cons distinct_missing_keys [OF assms(1), of l] show ?case
    by simp
qed

text \<open>
  C8. On a store whose student keys and lesson keys are distinct, one run of the
  reconciler (a POST by the administrator) appends a list \<open>new\<close> of Attendance
  rows and changes nothing else: the stored rows stay as they are, \<open>new\<close> has one
  default row (\<open>attended=False, late=False, grade=None\<close>) for exactly the pairs of a
  Lesson and a student of its group that had no row, no pair twice, and the count
  returned is its length. A second run right after creates no row and leaves the store
  as it is.
\<close>

theorem reconciler_idempotent:
  assumes "distinct (map Student.pk (students st))" and "distinct (map Lesson.pk (lessons st))"
    and "request.is_superuser rq" and "request.http_method rq = POST"
  shows "\<exists>new.
           create_missing_attendance_records st rq
             = (Inr (Some (length new)), st\<lparr>attendances := attendances st @ new\<rparr>)
         \<and> distinct (map att_key new)
         \<and> set new = {default_attendance (Lesson.pk l) s | l s.
                         l \<in> set (lessons st) \<and> s \<in> set (students st)
                         \<and> Student.group s = Lesson.group l
                         \<and> (Lesson.pk l, Student.pk s) \<notin> att_key ` set (attendances st)}
         \<and> create_missing_attendance_records (st\<lparr>attendances := attendances st @ new\<rparr>) rq
             = (Inr (Some 0), st\<lparr>attendances := attendances st @ new\<rparr>)"
proof -
  let ?new = "concat (map (missing_attendance st) (lessons st))"
  let ?st' = "st\<lparr>attendances := attendances st @ ?new\<rparr>"
  have first: "create_missing_attendance_records st rq = (Inr (Some (length ?new)), ?st')"
    using assms(3,4) reconcile_run [OF assms(1,2), of 0]
    by (simp add: create_missing_attendance_records_def)
  have keys: "distinct (map att_key ?new)"
    by (rule distinct_new_keys [OF assms(1,2)])
  have rows: "set ?new = {default_attendance (Lesson.pk l) s | l s.
                         l \<in> set (lessons st) \<and> s \<in> set (students st)
                         \<and> Student.group s = Lesson.group l
                         \<and> (Lesson.pk l, Student.pk s) \<notin> att_key ` set (attendances st)}"
  proof (rule set_eqI)
    fix a
    show "a \<in> set ?new \<longleftrightarrow>
            a \<in> {default_attendance (Lesson.pk l) s | l s.
                   l \<in> set (lessons st) \<and> s \<in> set (students st)
                   \<and> Student.group s = Lesson.group l
                   \<and> (Lesson.pk l, Student.pk s) \<notin> att_key ` set (attendances st)}"
      by (simp add: missing_attendance_iff) blast
  qed
  have "\<forall>l\<in>set (lessons ?st'). missing_attendance ?st' l = []"
    using missing_attendance_after [of _ "lessons st" st] by simp
  then have "reconcile (lessons ?st') 0 ?st' = (Inr 0, ?st')"
    by (rule reconcile_nothing)
  with assms(3,4) have second: "create_missing_attendance_records ?st' rq = (Inr (Some 0), ?st')"
    by (simp add: create_missing_attendance_records_def)
  from first keys rows second show ?thesis by blast
qed

text \<open>
  Student 4 joined group 1 after the Monday lesson: the first run creates the one row
  that is missing, the second none.
\<close>

theorem reconciler_idempotent_witness:
  "create_missing_attendance_records ex_store2 (ex_admin POST)
     = (Inr (Some 1),
        ex_store2\<lparr>attendances := attendances ex_store2
           @ [\<lparr>lesson = 1, student = 4, attended = False, late = False, grade = None\<rparr>]\<rparr>)
   \<and> create_missing_attendance_records
       (ex_store2\<lparr>attendances := attendances ex_store2
           @ [\<lparr>lesson = 1, student = 4, attended = False, late = False, grade = None\<rparr>]\<rparr>)
       (ex_admin POST)
     = (Inr (Some 0),
        ex_store2\<lparr>attendances := attendances ex_store2
           @ [\<lparr>lesson = 1, student = 4, attended = False, late = False, grade = None\<rparr>]\<rparr>)"
proof -
  have ds: "distinct (map Student.pk (students ex_store2))"
    and dl: "distinct (map Lesson.pk (lessons ex_store2))"
    and su: "request.is_superuser (ex_admin POST)"
    and po: "request.http_method (ex_admin POST) = POST"
    by (simp_all add: ex_defs)
  from reconciler_idempotent [OF ds dl su po] obtain new where
    first: "create_missing_attendance_records ex_store2 (ex_admin POST)
              = (Inr (Some (length new)), ex_store2\<lparr>attendances := attendances ex_store2 @ new\<rparr>)"
    and second: "create_missing_attendance_records
                   (ex_store2\<lparr>attendances := attendances ex_store2 @ new\<rparr>) (ex_admin POST)
              = (Inr (Some 0), ex_store2\<lparr>attendances := attendances ex_store2 @ new\<rparr>)"
    by blast
  have run: "create_missing_attendance_records ex_store2 (ex_admin POST)
     = (Inr (Some 1),
        ex_store2\<lparr>attendances := attendances ex_store2
           @ [\<lparr>lesson = 1, student = 4, attended = False, late = False, grade = None\<rparr>]\<rparr>)"
    by (simp add: ex_defs query_defs create_missing_attendance_records_def
        missing_attendance_def bulk_create_def Let_def)
  have "snd (create_missing_attendance_records ex_store2 (ex_admin POST))
          = ex_store2\<lparr>attendances := attendances ex_store2 @ new\<rparr>"
    by (simp only: first snd_conv)
  moreover have "snd (create_missing_attendance_records ex_store2 (ex_admin POST))
          = ex_store2\<lparr>attendances := attendances ex_store2
           @ [\<lparr>lesson = 1, student = 4, attended = False, late = False, grade = None\<rparr>]\<rparr>"
    by (simp only: run snd_conv)
  ultimately have "attendances (ex_store2\<lparr>attendances := attendances ex_store2 @ new\<rparr>)
       = attendances (ex_store2\<lparr>attendances := attendances ex_store2
           @ [\<lparr>lesson = 1, student = 4, attended = False, late = False, grade = None\<rparr>]\<rparr>)"
    by simp
  then have "new = [\<lparr>lesson = 1, student = 4, attended = False, late = False, grade = None\<rparr>]"
    by simp
  with run second show ?thesis by simp
qed

section \<open>Lessons and later edits of their Schedule\<close>

text \<open>What \<open>Lesson.save\<close> makes of a lesson flagged \<open>is_from_schedule\<close>.\<close>

lemma Lesson_pre_save_from_schedule:
  assumes "Lesson_pre_save st rv l = Inr l'" and "Lesson.schedule l = Some sid"
    and "Lesson.is_from_schedule l" and "get_schedule st sid = Some sch"
  shows "l' = l\<lparr>Lesson.subject := Schedule.subject sch,
                 Lesson.group := Schedule.group sch,
                 Lesson.teacher := Some (Schedule.teacher sch),
                 Lesson.start_time := Some (Schedule.start_time sch),
                 Lesson.end_time := Some (Schedule.end_time sch),
                 Lesson.classroom :=
                   (if falsy (Lesson.classroom l) then Schedule.classroom sch
                    else Lesson.classroom l)\<rparr>"
  using assms by (auto simp: Lesson_pre_save_def Let_def split: sum.splits)

lemma Schedule_save_keeps_lessons:
  "Schedule_save st r = Inr st' \<Longrightarrow> lessons st' = lessons st \<and> attendances st' = attendances st"
  by (auto simp: Schedule_save_def split: option.splits sum.splits if_splits)

lemma Lesson_save_from_schedule:
  assumes "Lesson_save st l = Inr st'" and "Lesson.schedule l = Some sid"
    and "Lesson.is_from_schedule l" and "get_schedule st sid = Some sch"
  shows "lessons st' =
           map (\<lambda>x. if Lesson.pk x = Lesson.pk l
                    then l\<lparr>Lesson.subject := Schedule.subject sch,
                           Lesson.group := Schedule.group sch,
                           Lesson.teacher := Some (Schedule.teacher sch),
                           Lesson.start_time := Some (Schedule.start_time sch),
                           Lesson.end_time := Some (Schedule.end_time sch),
                           Lesson.classroom :=
                             (if falsy (Lesson.classroom l) then Schedule.classroom sch
                              else Lesson.classroom l)\<rparr>
                    else x) (lessons st)"
proof (cases "Lesson_pre_save st (times_reversed (Lesson.start_time l) (Lesson.end_time l)) l")
  case (Inl e)
  with assms(1) show ?thesis by (simp add: Lesson_save_def)
next
  case (Inr l')
  note l' = Lesson_pre_save_from_schedule [OF Inr assms(2,3,4)]
  from assms(1) Inr have "lessons st' =
      map (\<lambda>x. if Lesson.pk x = Lesson.pk l' then l' else x) (lessons st)"
    by (auto simp: Lesson_save_def split: if_splits)
  moreover have "Lesson.pk l' = Lesson.pk l"
    by (subst l') simp
  ultimately show ?thesis
    by (simp add: l' [symmetric])
qed

lemma from_schedule_success_cases:
  assumes "(add_lesson st rq = (Inr (Some lid), st')
              \<and> lesson_form.lesson_type rq = Some ''from_schedule''
              \<and> lesson_form.schedule_id rq = Given sid)
           \<or> create_lesson_from_schedule st rq sid = (Inr (Some lid), st')"
    and "get_schedule st sid = Some sch"
  shows "\<exists>d. lesson_form.date rq = Given d
           \<and> lesson_from_schedule st sch d (lesson_form.classroom rq)
                (lesson_form.lesson_notes rq) = (Inr (Some lid), st')"
  using assms(1)
proof
  assume a: "add_lesson st rq = (Inr (Some lid), st')
              \<and> lesson_form.lesson_type rq = Some ''from_schedule''
              \<and> lesson_form.schedule_id rq = Given sid"
  then have r: "add_lesson st rq = (Inr (Some lid), st')"
    and ty: "lesson_form.lesson_type rq = Some ''from_schedule''"
    and si: "lesson_form.schedule_id rq = Given sid"
    by simp_all
  show ?thesis
  proof (cases "teacher_of_user st (request.user rq)")
    case None
    with r show ?thesis by (simp add: add_lesson_def)
  next
    case (Some t)
    show ?thesis
    proof (cases "lesson_form.date rq")
      case Missing
      with r Some show ?thesis by (simp add: add_lesson_def split: if_splits)
    next
      case Malformed
      with r Some show ?thesis by (simp add: add_lesson_def split: if_splits)
    next
      case (Given d)
      from r show ?thesis
        unfolding add_lesson_def
        by (simp add: Some Given ty si assms(2) split: if_splits)
    qed
  qed
next
  assume c: "create_lesson_from_schedule st rq sid = (Inr (Some lid), st')"
  show ?thesis
  proof (cases "lesson_form.date rq")
    case Missing
    with c assms(2) show ?thesis
      by (simp add: create_lesson_from_schedule_def split: if_splits)
  next
    case Malformed
    with c assms(2) show ?thesis
      by (simp add: create_lesson_from_schedule_def split: if_splits)
  next
    case (Given d)
    with c assms(2) show ?thesis
      by (simp add: create_lesson_from_schedule_def split: if_splits)
  qed
qed

lemma fan_out_keeps_lessons: "fan_out st lid g = Inr st' \<Longrightarrow> lessons st' = lessons st"
  by (auto simp: fan_out_def bulk_create_def split: if_splits)

lemma lesson_from_schedule_copies:
  assumes "lesson_from_schedule st sch d room notes = (Inr (Some lid), st')"
    and "get_schedule st (Schedule.pk sch) = Some sch"
  shows "\<exists>l. lessons st' = lessons st @ [l]
           \<and> Lesson.schedule l = Some (Schedule.pk sch) \<and> Lesson.is_from_schedule l
           \<and> Lesson.subject l = Schedule.subject sch
           \<and> Lesson.group l = Schedule.group sch
           \<and> Lesson.teacher l = Some (Schedule.teacher sch)
           \<and> Lesson.start_time l = Some (Schedule.start_time sch)
           \<and> Lesson.end_time l = Some (Schedule.end_time sch)
           \<and> Lesson.classroom l = (if room = [] then Schedule.classroom sch else Some room)"
proof -
  let ?new = "\<lparr>Lesson.pk = 0, schedule = Some (Schedule.pk sch),
                 subject = Schedule.subject sch, date = d, group = Schedule.group sch,
                 teacher = Some (Schedule.teacher sch),
                 classroom = (if room = [] then Schedule.classroom sch else Some room),
                 start_time = Some (Schedule.start_time sch),
                 end_time = Some (Schedule.end_time sch),
                 is_from_schedule = True, lesson_notes = notes\<rparr>"
  let ?rv = "times_reversed (Some (Schedule.start_time sch)) (Some (Schedule.end_time sch))"
  have "\<exists>st1. Lesson_create st ?rv ?new = Inr (lid, st1)
             \<and> fan_out st1 lid (Schedule.group sch) = Inr st'"
  proof (cases "Lesson_create st ?rv ?new")
    case (Inl e)
    with assms(1) show ?thesis
      by (simp add: lesson_from_schedule_def split: if_splits)
  next
    case (Inr r)
    obtain lid' st1 where r: "r = (lid', st1)" by (cases r)
    show ?thesis
    proof (cases "fan_out st1 lid' (Schedule.group sch)")
      case (Inl e)
      with Inr r assms(1) show ?thesis
        by (simp add: lesson_from_schedule_def split: if_splits)
    next
      case fo: (Inr st2)
      with Inr r assms(1) show ?thesis
        by (simp add: lesson_from_schedule_def split: if_splits)
    qed
  qed
  then obtain st1 where
    c: "Lesson_create st ?rv ?new = Inr (lid, st1)" and f: "fan_out st1 lid (Schedule.group sch) = Inr st'"
    by blast
  from Lesson_create_appends [OF c] obtain l' where
    p: "Lesson_pre_save st ?rv (?new\<lparr>Lesson.pk := lesson_seq st\<rparr>) = Inr l'"
    and l1: "lessons st1 = lessons st @ [l']"
    by blast
  have l': "l' = ?new\<lparr>Lesson.pk := lesson_seq st\<rparr>
                  \<lparr>Lesson.subject := Schedule.subject sch,
                   Lesson.group := Schedule.group sch,
                   Lesson.teacher := Some (Schedule.teacher sch),
                   Lesson.start_time := Some (Schedule.start_time sch),
                   Lesson.end_time := Some (Schedule.end_time sch),
                   Lesson.classroom :=
                     (if falsy (Lesson.classroom (?new\<lparr>Lesson.pk := lesson_seq st\<rparr>))
                      then Schedule.classroom sch
                      else Lesson.classroom (?new\<lparr>Lesson.pk := lesson_seq st\<rparr>))\<rparr>"
    by (rule Lesson_pre_save_from_schedule [OF p _ _ assms(2)]) simp_all
  have "lessons st' = lessons st @ [l']"
    using fan_out_keeps_lessons [OF f] l1 by simp
  moreover have "Lesson.schedule l' = Some (Schedule.pk sch) \<and> Lesson.is_from_schedule l'
           \<and> Lesson.subject l' = Schedule.subject sch
           \<and> Lesson.group l' = Schedule.group sch
           \<and> Lesson.teacher l' = Some (Schedule.teacher sch)
           \<and> Lesson.start_time l' = Some (Schedule.start_time sch)
           \<and> Lesson.end_time l' = Some (Schedule.end_time sch)
           \<and> Lesson.classroom l' = (if room = [] then Schedule.classroom sch else Some room)"
    by (subst l')+ (simp add: falsy_def)
  ultimately show ?thesis by blast
qed

text \<open>
  C4 says that a Lesson generated from a Schedule keeps its stored fields through
  every later edit of the Schedule, also across a later save of the Lesson. The Monday
  lesson was created at 09:00; the Schedule is then moved to 10:00 to 11:00, which
  leaves the lesson as it is; the lesson is saved again, and its stored times are now
  10:00 to 11:00.
\<close>

theorem resave_follows_schedule_counterexample:
  "lessons ex_store1 = [ex_lesson]
   \<and> Lesson.start_time ex_lesson = Some 540
   \<and> Schedule_save ex_store1 ex_schedule_moved = Inr ex_store1_moved
   \<and> lessons ex_store1_moved = [ex_lesson]
   \<and> Lesson_save ex_store1_moved ex_lesson
       = Inr (ex_store1_moved\<lparr>lessons :=
                [ex_lesson\<lparr>Lesson.start_time := Some 600, Lesson.end_time := Some 660\<rparr>]\<rparr>)"
  by (simp add: ex_defs query_defs lesson_defs
      schedule_defs Let_def)

text \<open>
  C4, amended. A Lesson created from a Schedule by either view takes subject, group,
  teacher and times from the Schedule, and the classroom too unless one is posted.
  Saving the Schedule changes no Lesson and no Attendance row. Every save of a Lesson
  that has the schedule and is flagged \<open>is_from_schedule\<close> stores, for that Lesson,
  subject, group, teacher and times as the Schedule row has them at that moment, and the
  Schedule's classroom when the Lesson has none.
\<close>

theorem lesson_copies_schedule_on_save:
  assumes "get_schedule st sid = Some sch"
  shows "((add_lesson st rq = (Inr (Some lid), st')
             \<and> lesson_form.lesson_type rq = Some ''from_schedule''
             \<and> lesson_form.schedule_id rq = Given sid)
          \<or> create_lesson_from_schedule st rq sid = (Inr (Some lid), st')
          \<longrightarrow> (\<exists>l. lessons st' = lessons st @ [l]
                 \<and> Lesson.schedule l = Some sid \<and> Lesson.is_from_schedule l
                 \<and> Lesson.subject l = Schedule.subject sch
                 \<and> Lesson.group l = Schedule.group sch
                 \<and> Lesson.teacher l = Some (Schedule.teacher sch)
                 \<and> Lesson.start_time l = Some (Schedule.start_time sch)
                 \<and> Lesson.end_time l = Some (Schedule.end_time sch)
                 \<and> Lesson.classroom l =
                     (if lesson_form.classroom rq = [] then Schedule.classroom sch
                      else Some (lesson_form.classroom rq))))
       \<and> (Schedule_save st r = Inr st2
          \<longrightarrow> lessons st2 = lessons st \<and> attendances st2 = attendances st)
       \<and> (Lesson_save st l = Inr st3 \<and> Lesson.schedule l = Some sid \<and> Lesson.is_from_schedule l
          \<longrightarrow> lessons st3 =
                map (\<lambda>x. if Lesson.pk x = Lesson.pk l
                         then l\<lparr>Lesson.subject := Schedule.subject sch,
                                Lesson.group := Schedule.group sch,
                                Lesson.teacher := Some (Schedule.teacher sch),
                                Lesson.start_time := Some (Schedule.start_time sch),
                                Lesson.end_time := Some (Schedule.end_time sch),
                                Lesson.classroom :=
                                  (if falsy (Lesson.classroom l) then Schedule.classroom sch
                                   else Lesson.classroom l)\<rparr>
                         else x) (lessons st))"
proof (intro conjI impI)
  assume a: "(add_lesson st rq = (Inr (Some lid), st')
             \<and> lesson_form.lesson_type rq = Some ''from_schedule''
             \<and> lesson_form.schedule_id rq = Given sid)
          \<or> create_lesson_from_schedule st rq sid = (Inr (Some lid), st')"
  from from_schedule_success_cases [OF a assms] obtain d where
    "lesson_from_schedule st sch d (lesson_form.classroom rq) (lesson_form.lesson_notes rq)
       = (Inr (Some lid), st')"
    by blast
  moreover have pk: "Schedule.pk sch = sid"
    using assms by (rule get_schedule_pk)
  ultimately show "\<exists>l. lessons st' = lessons st @ [l]
                 \<and> Lesson.schedule l = Some sid \<and> Lesson.is_from_schedule l
                 \<and> Lesson.subject l = Schedule.subject sch
                 \<and> Lesson.group l = Schedule.group sch
                 \<and> Lesson.teacher l = Some (Schedule.teacher sch)
                 \<and> Lesson.start_time l = Some (Schedule.start_time sch)
                 \<and> Lesson.end_time l = Some (Schedule.end_time sch)
                 \<and> Lesson.classroom l =
                     (if lesson_form.classroom rq = [] then Schedule.classroom sch
                      else Some (lesson_form.classroom rq))"
    using lesson_from_schedule_copies [of st sch d "lesson_form.classroom rq"
        "lesson_form.lesson_notes rq" lid st'] assms
    by simp
next
  assume "Schedule_save st r = Inr st2"
  then show "lessons st2 = lessons st" and "attendances st2 = attendances st"
    using Schedule_save_keeps_lessons by blast+
next
  assume "Lesson_save st l = Inr st3 \<and> Lesson.schedule l = Some sid \<and> Lesson.is_from_schedule l"
  then show "lessons st3 =
                map (\<lambda>x. if Lesson.pk x = Lesson.pk l
                         then l\<lparr>Lesson.subject := Schedule.subject sch,
                                Lesson.group := Schedule.group sch,
                                Lesson.teacher := Some (Schedule.teacher sch),
                                Lesson.start_time := Some (Schedule.start_time sch),
                                Lesson.end_time := Some (Schedule.end_time sch),
                                Lesson.classroom :=
                                  (if falsy (Lesson.classroom l) then Schedule.classroom sch
                                   else Lesson.classroom l)\<rparr>
                         else x) (lessons st)"
    using Lesson_save_from_schedule [of st l st3 sid sch] assms by blast
qed

text \<open>The Monday lesson saved again after the Schedule was moved.\<close>

theorem lesson_copies_schedule_on_save_witness:
  "add_lesson ex_store (ex_from_schedule_form ex_monday) = (Inr (Some 1), ex_store1)
   \<and> map Lesson.start_time (lessons ex_store1) = [Some (Schedule.start_time ex_schedule)]
   \<and> Schedule_save ex_store1 ex_schedule_moved = Inr ex_store1_moved
   \<and> lessons ex_store1_moved = lessons ex_store1
   \<and> Lesson_save ex_store1_moved ex_lesson
       = Inr (ex_store1_moved\<lparr>lessons :=
                [ex_lesson\<lparr>Lesson.start_time := Some 600, Lesson.end_time := Some 660\<rparr>]\<rparr>)
   \<and> lessons (ex_store1_moved\<lparr>lessons :=
              [ex_lesson\<lparr>Lesson.start_time := Some 600, Lesson.end_time := Some 660\<rparr>]\<rparr>)
       = map (\<lambda>x. if Lesson.pk x = Lesson.pk ex_lesson
                  then ex_lesson\<lparr>Lesson.subject := Schedule.subject ex_schedule_moved,
                         Lesson.group := Schedule.group ex_schedule_moved,
                         Lesson.teacher := Some (Schedule.teacher ex_schedule_moved),
                         Lesson.start_time := Some (Schedule.start_time ex_schedule_moved),
                         Lesson.end_time := Some (Schedule.end_time ex_schedule_moved),
                         Lesson.classroom :=
                           (if falsy (Lesson.classroom ex_lesson)
                            then Schedule.classroom ex_schedule_moved
                            else Lesson.classroom ex_lesson)\<rparr>
                  else x) (lessons ex_store1_moved)"
proof -
  have g0: "get_schedule ex_store 1 = Some ex_schedule"
    and g1: "get_schedule ex_store1 1 = Some ex_schedule"
    and g2: "get_schedule ex_store1_moved 1 = Some ex_schedule_moved"
    by (simp_all add: ex_defs query_defs)
  have c: "add_lesson ex_store (ex_from_schedule_form ex_monday) = (Inr (Some 1), ex_store1)
           \<and> lesson_form.lesson_type (ex_from_schedule_form ex_monday) = Some ''from_schedule''
           \<and> lesson_form.schedule_id (ex_from_schedule_form ex_monday) = Given 1"
    by (simp add: ex_defs query_defs lesson_defs)
  have e: "Schedule_save ex_store1 ex_schedule_moved = Inr ex_store1_moved"
    by (simp add: ex_defs query_defs schedule_defs)
  have s: "Lesson_save ex_store1_moved ex_lesson
     = Inr (ex_store1_moved\<lparr>lessons :=
              [ex_lesson\<lparr>Lesson.start_time := Some 600, Lesson.end_time := Some 660\<rparr>]\<rparr>)"
    by (simp add: ex_defs query_defs lesson_defs)
  have f: "Lesson.schedule ex_lesson = Some 1 \<and> Lesson.is_from_schedule ex_lesson"
    by (simp add: ex_defs)
  from lesson_copies_schedule_on_save [OF g0, of "ex_from_schedule_form ex_monday" 1 ex_store1] c
  obtain l where "lessons ex_store1 = lessons ex_store @ [l]"
    and "Lesson.start_time l = Some (Schedule.start_time ex_schedule)"
    by blast
  then have created: "map Lesson.start_time (lessons ex_store1)
                        = [Some (Schedule.start_time ex_schedule)]"
    by (simp add: ex_store_def)
  from lesson_copies_schedule_on_save [OF g1, of _ _ _ ex_schedule_moved ex_store1_moved] e
  have kept: "lessons ex_store1_moved = lessons ex_store1"
    by blast
  from lesson_copies_schedule_on_save [OF g2] s f c created e kept show ?thesis
    by blast
qed

section \<open>What edit_attendance stores\<close>

text \<open>The row the view means to store for a lesson.\<close>

lemma posted_row_clean:
  "Attendance_clean \<lparr>lesson = lid, student = sid, attended = attended_posted rq lid,
                     late = posted_late rq lid, grade = posted_grade rq lid\<rparr> = Inr ()"
  by (auto simp: Attendance_clean_def posted_late_def posted_grade_def split: field.splits)

lemma filter_key_update:
  assumes "att_key a' = k"
  shows "filter (\<lambda>x. att_key x = k') (map (\<lambda>x. if att_key x = k then a' else x) xs)
           = (if k' = k then map (\<lambda>_. a') (filter (\<lambda>x. att_key x = k) xs)
              else filter (\<lambda>x. att_key x = k') xs)"
  using assms by (induction xs) auto

lemma edit_row_effect:
  assumes "(records_dict (Lesson.pk l) = None
              \<and> filter (\<lambda>x. att_key x = (Lesson.pk l, sid)) (attendances st) = [])
           \<or> (\<exists>a. records_dict (Lesson.pk l) = Some a
                \<and> filter (\<lambda>x. att_key x = (Lesson.pk l, sid)) (attendances st) = [a])"
  shows "\<exists>st'. edit_row records_dict sid rq l st = Inr st'
           \<and> filter (\<lambda>x. att_key x = (Lesson.pk l, sid)) (attendances st')
               = [\<lparr>lesson = Lesson.pk l, student = sid,
                    attended = attended_posted rq (Lesson.pk l),
                    late = posted_late rq (Lesson.pk l),
                    grade = posted_grade rq (Lesson.pk l)\<rparr>]
           \<and> (\<forall>k. k \<noteq> (Lesson.pk l, sid) \<longrightarrow>
                 filter (\<lambda>x. att_key x = k) (attendances st')
                   = filter (\<lambda>x. att_key x = k) (attendances st))"
  using assms
proof
  assume n: "records_dict (Lesson.pk l) = None
              \<and> filter (\<lambda>x. att_key x = (Lesson.pk l, sid)) (attendances st) = []"
  let ?row = "\<lparr>lesson = Lesson.pk l, student = sid,
                    attended = attended_posted rq (Lesson.pk l),
                    late = posted_late rq (Lesson.pk l),
                    grade = posted_grade rq (Lesson.pk l)\<rparr>"
  from n have fresh: "att_key ?row \<notin> set (map att_key (attendances st))"
    by (auto simp: filter_empty_conv att_key_def)
  have "edit_row records_dict sid rq l st = Inr (st\<lparr>attendances := attendances st @ [?row]\<rparr>)"
    using n fresh posted_row_clean [of "Lesson.pk l" sid rq]
    by (simp add: edit_row_def Let_def Attendance_create_def)
  moreover have "filter (\<lambda>x. att_key x = (Lesson.pk l, sid)) (attendances st @ [?row]) = [?row]"
    using n by (simp add: att_key_def)
  moreover have "\<forall>k. k \<noteq> (Lesson.pk l, sid) \<longrightarrow>
                 filter (\<lambda>x. att_key x = k) (attendances st @ [?row])
                   = filter (\<lambda>x. att_key x = k) (attendances st)"
    by (auto simp: att_key_def)
  ultimately show ?thesis by simp
next
  assume "\<exists>a. records_dict (Lesson.pk l) = Some a
                \<and> filter (\<lambda>x. att_key x = (Lesson.pk l, sid)) (attendances st) = [a]"
  then obtain a where rd: "records_dict (Lesson.pk l) = Some a"
    and rows: "filter (\<lambda>x. att_key x = (Lesson.pk l, sid)) (attendances st) = [a]"
    by blast
  let ?row = "\<lparr>lesson = Lesson.pk l, student = sid,
                    attended = attended_posted rq (Lesson.pk l),
                    late = posted_late rq (Lesson.pk l),
                    grade = posted_grade rq (Lesson.pk l)\<rparr>"
  have "a \<in> set (filter (\<lambda>x. att_key x = (Lesson.pk l, sid)) (attendances st))"
    by (simp add: rows)
  then have key: "att_key a = (Lesson.pk l, sid)" by simp
  then have upd: "a\<lparr>attended := attended_posted rq (Lesson.pk l),
                     late := posted_late rq (Lesson.pk l),
                     grade := posted_grade rq (Lesson.pk l)\<rparr> = ?row"
    by (cases a) (simp add: att_key_def)
  show ?thesis
  proof (cases "Attendance.attended a \<noteq> attended_posted rq (Lesson.pk l)
                \<or> Attendance.late a \<noteq> posted_late rq (Lesson.pk l)
                \<or> Attendance.grade a \<noteq> posted_grade rq (Lesson.pk l)")
    case False
    then have "a = ?row"
      using key by (cases a) (simp add: att_key_def)
    moreover from False rd have "edit_row records_dict sid rq l st = Inr st"
      by (simp add: edit_row_def Let_def)
    ultimately show ?thesis using rows by simp
  next
    case True
    let ?st' = "st\<lparr>attendances :=
                    map (\<lambda>x. if att_key x = att_key ?row then ?row else x) (attendances st)\<rparr>"
    have k: "att_key ?row = (Lesson.pk l, sid)" by (simp add: att_key_def)
    from True rd have "edit_row records_dict sid rq l st = Inr ?st'"
      using posted_row_clean [of "Lesson.pk l" sid rq]
      by (simp add: edit_row_def Let_def upd Attendance_save_def)
    moreover have "filter (\<lambda>x. att_key x = (Lesson.pk l, sid)) (attendances ?st') = [?row]"
      using filter_key_update [OF k, of "(Lesson.pk l, sid)" "attendances st"] rows
      by (simp add: k)
    moreover have "\<forall>k'. k' \<noteq> (Lesson.pk l, sid) \<longrightarrow>
                 filter (\<lambda>x. att_key x = k') (attendances ?st')
                   = filter (\<lambda>x. att_key x = k') (attendances st)"
      using filter_key_update [OF k, of _ "attendances st"]
      by (simp add: k)
    ultimately show ?thesis by blast
  qed
qed

lemma edit_rows_effect:
  assumes "distinct (map Lesson.pk ls)"
    and "\<forall>l\<in>set ls.
           (records_dict (Lesson.pk l) = None
              \<and> filter (\<lambda>x. att_key x = (Lesson.pk l, sid)) (attendances st) = [])
           \<or> (\<exists>a. records_dict (Lesson.pk l) = Some a
                \<and> filter (\<lambda>x. att_key x = (Lesson.pk l, sid)) (attendances st) = [a])"
  shows "\<exists>st'. edit_rows records_dict sid rq ls st = (Inr (), st')
           \<and> (\<forall>l\<in>set ls.
                 filter (\<lambda>x. att_key x = (Lesson.pk l, sid)) (attendances st')
                   = [\<lparr>lesson = Lesson.pk l, student = sid,
                        attended = attended_posted rq (Lesson.pk l),
                        late = posted_late rq (Lesson.pk l),
                        grade = posted_grade rq (Lesson.pk l)\<rparr>])
           \<and> (\<forall>k. k \<notin> (\<lambda>l. (Lesson.pk l, sid)) ` set ls \<longrightarrow>
                 filter (\<lambda>x. att_key x = k) (attendances st')
                   = filter (\<lambda>x. att_key x = k) (attendances st))"
  using assms
proof (induction ls arbitrary: st)
  case Nil
  then show ?case by simp
next
  case (Cons l ls)
  from Cons.prems(2) have
    "(records_dict (Lesson.pk l) = None
        \<and> filter (\<lambda>x. att_key x = (Lesson.pk l, sid)) (attendances st) = [])
     \<or> (\<exists>a. records_dict (Lesson.pk l) = Some a
          \<and> filter (\<lambda>x. att_key x = (Lesson.pk l, sid)) (attendances st) = [a])"
    by simp
  from edit_row_effect [where records_dict = records_dict and l = l and sid = sid
      and st = st and rq = rq, OF this] obtain st1 where
    step: "edit_row records_dict sid rq l st = Inr st1"
    and here: "filter (\<lambda>x. att_key x = (Lesson.pk l, sid)) (attendances st1)
               = [\<lparr>lesson = Lesson.pk l, student = sid,
                    attended = attended_posted rq (Lesson.pk l),
                    late = posted_late rq (Lesson.pk l),
                    grade = posted_grade rq (Lesson.pk l)\<rparr>]"
    and other: "\<And>k. k \<noteq> (Lesson.pk l, sid) \<Longrightarrow>
                 filter (\<lambda>x. att_key x = k) (attendances st1)
                   = filter (\<lambda>x. att_key x = k) (attendances st)"
    by blast
  have ne: "Lesson.pk l' \<noteq> Lesson.pk l" if "l' \<in> set ls" for l'
    using that Cons.prems(1) by (force simp: image_iff)
  have rest: "\<forall>l'\<in>set ls.
           (records_dict (Lesson.pk l') = None
              \<and> filter (\<lambda>x. att_key x = (Lesson.pk l', sid)) (attendances st1) = [])
           \<or> (\<exists>a. records_dict (Lesson.pk l') = Some a
                \<and> filter (\<lambda>x. att_key x = (Lesson.pk l', sid)) (attendances st1) = [a])"
  proof
    fix l' assume l': "l' \<in> set ls"
    with Cons.prems(2) have
      "(records_dict (Lesson.pk l') = None
          \<and> filter (\<lambda>x. att_key x = (Lesson.pk l', sid)) (attendances st) = [])
       \<or> (\<exists>a. records_dict (Lesson.pk l') = Some a
            \<and> filter (\<lambda>x. att_key x = (Lesson.pk l', sid)) (attendances st) = [a])"
      by simp
    moreover have "filter (\<lambda>x. att_key x = (Lesson.pk l', sid)) (attendances st1)
                     = filter (\<lambda>x. att_key x = (Lesson.pk l', sid)) (attendances st)"
      using ne [OF l'] by (intro other) simp
    ultimately show
      "(records_dict (Lesson.pk l') = None
          \<and> filter (\<lambda>x. att_key x = (Lesson.pk l', sid)) (attendances st1) = [])
       \<or> (\<exists>a. records_dict (Lesson.pk l') = Some a
            \<and> filter (\<lambda>x. att_key x = (Lesson.pk l', sid)) (attendances st1) = [a])"
      by simp
  qed
  from Cons.prems(1) have "distinct (map Lesson.pk ls)" by simp
  from Cons.IH [OF this rest] obtain st' where
    run: "edit_rows records_dict sid rq ls st1 = (Inr (), st')"
    and fin: "\<And>l'. l' \<in> set ls \<Longrightarrow>
                 filter (\<lambda>x. att_key x = (Lesson.pk l', sid)) (attendances st')
                   = [\<lparr>lesson = Lesson.pk l', student = sid,
                        attended = attended_posted rq (Lesson.pk l'),
                        late = posted_late rq (Lesson.pk l'),
                        grade = posted_grade rq (Lesson.pk l')\<rparr>]"
    and frame: "\<And>k. k \<notin> (\<lambda>l. (Lesson.pk l, sid)) ` set ls \<Longrightarrow>
                 filter (\<lambda>x. att_key x = k) (attendances st')
                   = filter (\<lambda>x. att_key x = k) (attendances st1)"
    by blast
  have "(Lesson.pk l, sid) \<notin> (\<lambda>l. (Lesson.pk l, sid)) ` set ls"
  proof
    assume "(Lesson.pk l, sid) \<in> (\<lambda>l. (Lesson.pk l, sid)) ` set ls"
    then obtain l' where "l' \<in> set ls" and "Lesson.pk l' = Lesson.pk l"
      by auto
    with ne show False by blast
  qed
  from frame [OF this] here have first:
    "filter (\<lambda>x. att_key x = (Lesson.pk l, sid)) (attendances st')
       = [\<lparr>lesson = Lesson.pk l, student = sid,
            attended = attended_posted rq (Lesson.pk l),
            late = posted_late rq (Lesson.pk l),
            grade = posted_grade rq (Lesson.pk l)\<rparr>]"
    by simp
  have outside: "filter (\<lambda>x. att_key x = k) (attendances st')
                   = filter (\<lambda>x. att_key x = k) (attendances st)"
    if "k \<notin> (\<lambda>l. (Lesson.pk l, sid)) ` set (l # ls)" for k
  proof -
    from that have "k \<notin> (\<lambda>l. (Lesson.pk l, sid)) ` set ls" and "k \<noteq> (Lesson.pk l, sid)"
      by auto
    with frame other show ?thesis by simp
  qed
  from step run have "edit_rows records_dict sid rq (l # ls) st = (Inr (), st')"
    by simp
  with first fin outside show ?case
    by auto
qed

lemma filter_distinct_key:
  "distinct (map f xs) \<Longrightarrow> a \<in> set xs \<Longrightarrow> filter (\<lambda>x. f x = f a) xs = [a]"
proof (induction xs)
  case Nil
  then show ?case by simp
next
  case (Cons x xs)
  show ?case
  proof (cases "x = a")
    case True
    with Cons.prems have "filter (\<lambda>x. f x = f a) xs = []"
      by (auto simp: filter_empty_conv image_iff)
    with True show ?thesis by simp
  next
    case False
    with Cons.prems have "a \<in> set xs" and "f x \<noteq> f a"
      by (auto simp: image_iff)
    with Cons show ?thesis by simp
  qed
qed

lemma records_dict_consistent:
  assumes "distinct (map att_key (attendances st))"
  shows "(map_of (rev (map (\<lambda>a. (Attendance.lesson a, a))
                    (filter (\<lambda>a. Attendance.student a = sid) (attendances st)))) lid = None
            \<and> filter (\<lambda>x. att_key x = (lid, sid)) (attendances st) = [])
         \<or> (\<exists>a. map_of (rev (map (\<lambda>a. (Attendance.lesson a, a))
                    (filter (\<lambda>a. Attendance.student a = sid) (attendances st)))) lid = Some a
              \<and> filter (\<lambda>x. att_key x = (lid, sid)) (attendances st) = [a])"
proof (cases "(lid, sid) \<in> att_key ` set (attendances st)")
  case False
  then have "filter (\<lambda>x. att_key x = (lid, sid)) (attendances st) = []"
    by (force simp: filter_empty_conv image_iff)
  moreover from False have
    "lid \<notin> fst ` set (rev (map (\<lambda>a. (Attendance.lesson a, a))
                    (filter (\<lambda>a. Attendance.student a = sid) (attendances st))))"
    by (auto simp: att_key_def image_iff)
  then have "map_of (rev (map (\<lambda>a. (Attendance.lesson a, a))
                    (filter (\<lambda>a. Attendance.student a = sid) (attendances st)))) lid = None"
    by (rule iffD2 [OF map_of_eq_None_iff])
  ultimately show ?thesis by simp
next
  case True
  then obtain a where a: "a \<in> set (attendances st)" and k: "att_key a = (lid, sid)"
    by auto
  from filter_distinct_key [OF assms a] k
  have rows: "filter (\<lambda>x. att_key x = (lid, sid)) (attendances st) = [a]"
    by simp
  let ?al = "map (\<lambda>a. (Attendance.lesson a, a))
               (filter (\<lambda>a. Attendance.student a = sid) (attendances st))"
  have "map fst ?al = map Attendance.lesson
                        (filter (\<lambda>a. Attendance.student a = sid) (attendances st))"
    by (simp add: comp_def)
  moreover have "distinct (map Attendance.lesson
                   (filter (\<lambda>a. Attendance.student a = sid) (attendances st)))"
    using assms
  proof (induction "attendances st" arbitrary: st)
    case Nil
    then show ?case by simp
  next
    case (Cons x xs)
    from Cons.hyps(2) [symmetric] Cons.prems
    have d: "distinct (map att_key xs)" and nx: "att_key x \<notin> att_key ` set xs"
      by simp_all
    from Cons.hyps(1) [of "st\<lparr>attendances := xs\<rparr>"] d
    have ih: "distinct (map Attendance.lesson (filter (\<lambda>a. Attendance.student a = sid) xs))"
      by simp
    show ?case
    proof (cases "Attendance.student x = sid")
      case False
      with ih Cons.hyps(2) [symmetric] show ?thesis by simp
    next
      case True
      have "Attendance.lesson x \<notin> Attendance.lesson `
              set (filter (\<lambda>a. Attendance.student a = sid) xs)"
      proof
        assume "Attendance.lesson x \<in> Attendance.lesson `
              set (filter (\<lambda>a. Attendance.student a = sid) xs)"
        then obtain y where "y \<in> set xs" "Attendance.student y = sid"
          "Attendance.lesson y = Attendance.lesson x"
          by auto
        with True have "att_key y = att_key x" by (simp add: att_key_def)
        with \<open>y \<in> set xs\<close> nx show False by (metis imageI)
      qed
      with ih True Cons.hyps(2) [symmetric] show ?thesis by simp
    qed
  qed
  ultimately have "distinct (map fst (rev ?al))"
    by (simp add: rev_map [symmetric] comp_def)
  moreover have "(lid, a) \<in> set (rev ?al)"
    using a k by (auto simp: att_key_def)
  ultimately have "map_of (rev ?al) lid = Some a"
    by (rule map_of_is_SomeI)
  with rows show ?thesis by blast
qed

lemma get_student_pk: "get_student st sid = Some s \<Longrightarrow> Student.pk s = sid"
  by (auto simp: get_student_def find_Some_iff)

lemma edit_attendance_stores:
  assumes "get_student st sid = Some s" and "has_access st rq s"
    and "request.http_method rq = POST"
    and "distinct (map Lesson.pk (lessons st))"
    and "distinct (map att_key (attendances st))"
    and "l \<in> set (lessons st)" and "Lesson.group l = Student.group s"
  shows "fst (edit_attendance st rq sid) = Inr ()
       \<and> filter (\<lambda>x. att_key x = (Lesson.pk l, sid))
           (attendances (snd (edit_attendance st rq sid)))
           = [\<lparr>lesson = Lesson.pk l, student = sid,
                attended = attended_posted rq (Lesson.pk l),
                late = posted_late rq (Lesson.pk l),
                grade = posted_grade rq (Lesson.pk l)\<rparr>]"
proof -
  let ?ls = "sort_key (\<lambda>l. - Lesson.date l)
               (filter (\<lambda>l. Lesson.group l = Student.group s) (lessons st))"
  let ?rd = "map_of (rev (map (\<lambda>a. (Attendance.lesson a, a))
                    (filter (\<lambda>a. Attendance.student a = sid) (attendances st))))"
  have pk: "Student.pk s = sid"
    using assms(1) by (rule get_student_pk)
  have view: "edit_attendance st rq sid = edit_rows ?rd sid rq ?ls st"
    using assms(1,2,3) by (simp add: edit_attendance_def pk Let_def)
  have d: "distinct (map Lesson.pk ?ls)"
    using assms(4) by (simp add: distinct_map inj_on_def)
  have c: "\<forall>l\<in>set ?ls.
           (?rd (Lesson.pk l) = None
              \<and> filter (\<lambda>x. att_key x = (Lesson.pk l, sid)) (attendances st) = [])
           \<or> (\<exists>a. ?rd (Lesson.pk l) = Some a
                \<and> filter (\<lambda>x. att_key x = (Lesson.pk l, sid)) (attendances st) = [a])"
    using records_dict_consistent [OF assms(5), of sid] by blast
  from edit_rows_effect [OF d c, of rq] obtain st' where
    run: "edit_rows ?rd sid rq ?ls st = (Inr (), st')"
    and rows: "\<And>l. l \<in> set ?ls \<Longrightarrow>
                 filter (\<lambda>x. att_key x = (Lesson.pk l, sid)) (attendances st')
                   = [\<lparr>lesson = Lesson.pk l, student = sid,
                        attended = attended_posted rq (Lesson.pk l),
                        late = posted_late rq (Lesson.pk l),
                        grade = posted_grade rq (Lesson.pk l)\<rparr>]"
    by blast
  have "l \<in> set ?ls"
    using assms(6,7) by simp
  from rows [OF this] run view show ?thesis
    by simp
qed

section \<open>Grades outside 2..5\<close>

text \<open>
  C5 says that an Attendance update with a grade outside 2..5 is rejected and nothing
  is stored for it. Student 1 has attended with grade 4; the teacher posts grade 6 for
  that lesson through \<open>edit_attendance\<close>: the view does not reject, and the stored
  row now has no grade.
\<close>

theorem grade_six_erases_grade_counterexample:
  "filter (\<lambda>x. att_key x = (1, 1)) (attendances ex_store3)
     = [\<lparr>lesson = 1, student = 1, attended = True, late = False, grade = Some 4\<rparr>]
   \<and> fst (edit_attendance ex_store3 (ex_attendance_form True False (Given 6)) 1) = Inr ()
   \<and> filter (\<lambda>x. att_key x = (1, 1))
       (attendances (snd (edit_attendance ex_store3 (ex_attendance_form True False (Given 6)) 1)))
     = [\<lparr>lesson = 1, student = 1, attended = True, late = False, grade = None\<rparr>]"
  by (simp add: ex_defs query_defs attendance_defs Let_def)

text \<open>
  C5, amended. A permitted POST to \<open>edit_attendance\<close>, on a store with distinct
  lesson keys and one row at most per (lesson, student), is never rejected for a
  grade: for each lesson of the student's group the one stored row gets the posted
  grade when it lies in 2..5, and no grade when it lies outside, does not parse or is
  empty. The model write (\<open>Attendance.save\<close>, \<open>Attendance.objects.create\<close>)
  rejects a grade outside 2..5 with \<open>ValidationError\<close> and stores nothing; it
  accepts a grade in 2..5 and a null grade (unless the row is late without attended).
\<close>

theorem grade_outside_range_handling:
  assumes "get_student st sid = Some s" and "has_access st rq s"
    and "request.http_method rq = POST"
    and "distinct (map Lesson.pk (lessons st))"
    and "distinct (map att_key (attendances st))"
    and "l \<in> set (lessons st)" and "Lesson.group l = Student.group s"
  shows "fst (edit_attendance st rq sid) = Inr ()
       \<and> map Attendance.grade
           (filter (\<lambda>x. att_key x = (Lesson.pk l, sid))
              (attendances (snd (edit_attendance st rq sid))))
           = [case grade_posted rq (Lesson.pk l) of
                Given g \<Rightarrow> if g < 2 \<or> g > 5 then None else Some g
              | _ \<Rightarrow> None]
       \<and> ((\<exists>g. Attendance.grade a = Some g \<and> (g < 2 \<or> g > 5))
            \<longrightarrow> Attendance_save st a = Inl ValidationError
              \<and> Attendance_create st a = Inl ValidationError)
       \<and> ((Attendance.grade a = None \<or> (\<exists>g. Attendance.grade a = Some g \<and> 2 \<le> g \<and> g \<le> 5))
            \<and> (Attendance.late a \<longrightarrow> Attendance.attended a)
            \<longrightarrow> Attendance_save st a =
                  Inr (st\<lparr>attendances :=
                         map (\<lambda>x. if att_key x = att_key a then a else x) (attendances st)\<rparr>))"
proof -
  note v = edit_attendance_stores [OF assms]
  from v have "fst (edit_attendance st rq sid) = Inr ()" by simp
  moreover from v have "map Attendance.grade
           (filter (\<lambda>x. att_key x = (Lesson.pk l, sid))
              (attendances (snd (edit_attendance st rq sid))))
           = [case grade_posted rq (Lesson.pk l) of
                Given g \<Rightarrow> if g < 2 \<or> g > 5 then None else Some g
              | _ \<Rightarrow> None]"
    by (simp add: posted_grade_def)
  moreover have "(\<exists>g. Attendance.grade a = Some g \<and> (g < 2 \<or> g > 5))
            \<longrightarrow> Attendance_save st a = Inl ValidationError
              \<and> Attendance_create st a = Inl ValidationError"
    by (auto simp: Attendance_save_def Attendance_create_def Attendance_clean_def)
  moreover have "(Attendance.grade a = None \<or> (\<exists>g. Attendance.grade a = Some g \<and> 2 \<le> g \<and> g \<le> 5))
            \<and> (Attendance.late a \<longrightarrow> Attendance.attended a)
            \<longrightarrow> Attendance_save st a =
                  Inr (st\<lparr>attendances :=
                         map (\<lambda>x. if att_key x = att_key a then a else x) (attendances st)\<rparr>)"
    by (auto simp: Attendance_save_def Attendance_clean_def split: option.splits)
  ultimately show ?thesis by blast
qed

text \<open>Grades 6 and 5 posted for student 1, and grade 6 written through the model.\<close>

theorem grade_outside_range_handling_witness:
  "fst (edit_attendance ex_store3 (ex_attendance_form True False (Given 6)) 1) = Inr ()
   \<and> map Attendance.grade
       (filter (\<lambda>x. att_key x = (1, 1))
          (attendances (snd (edit_attendance ex_store3 (ex_attendance_form True False (Given 6)) 1))))
       = [None]
   \<and> map Attendance.grade
       (filter (\<lambda>x. att_key x = (1, 1))
          (attendances (snd (edit_attendance ex_store3 (ex_attendance_form True False (Given 5)) 1))))
       = [Some 5]
   \<and> Attendance_save ex_store3
        \<lparr>lesson = 1, student = 1, attended = True, late = False, grade = Some 6\<rparr>
       = Inl ValidationError
   \<and> Attendance_save ex_store3
        \<lparr>lesson = 1, student = 1, attended = True, late = False, grade = Some 5\<rparr>
       = Inr (ex_store3\<lparr>attendances :=
                [\<lparr>lesson = 1, student = 1, attended = True, late = False, grade = Some 5\<rparr>,
                 \<lparr>lesson = 1, student = 2, attended = False, late = False, grade = None\<rparr>]\<rparr>)"
proof -
  have s: "get_student ex_store3 1 = Some \<lparr>Student.pk = 1, user = 20, group = 1\<rparr>"
    by (simp add: ex_defs query_defs)
  have a: "has_access ex_store3 (ex_attendance_form True False g)
             \<lparr>Student.pk = 1, user = 20, group = 1\<rparr>" for g
    by (simp add: ex_defs query_defs has_access_def)
  have m: "request.http_method (ex_attendance_form True False g) = POST" for g
    by (simp add: ex_defs)
  have dl: "distinct (map Lesson.pk (lessons ex_store3))"
    and da: "distinct (map att_key (attendances ex_store3))"
    and l: "ex_lesson \<in> set (lessons ex_store3)"
    and g: "Lesson.group ex_lesson = Student.group \<lparr>Student.pk = 1, user = 20, group = 1\<rparr>"
    and k: "Lesson.pk ex_lesson = 1"
    by (simp_all add: ex_defs att_key_def)
  from grade_outside_range_handling [OF s a m dl da l g,
      of "Given 6" "\<lparr>lesson = 1, student = 1, attended = True, late = False, grade = Some 6\<rparr>"]
    grade_outside_range_handling [OF s a m dl da l g,
      of "Given 5" "\<lparr>lesson = 1, student = 1, attended = True, late = False, grade = Some 5\<rparr>"]
  show ?thesis
    by (simp add: k ex_defs att_key_def)
qed

section \<open>Absent and late\<close>

text \<open>
  C6 says that every Attendance write with \<open>attended=False\<close> and \<open>late=True\<close>
  succeeds and stores (False, False). Written through \<open>Attendance.save\<close>, such a row
  is rejected by \<open>clean\<close>.
\<close>

theorem model_rejects_absent_late_counterexample:
  "Attendance_save ex_store1
     \<lparr>lesson = 1, student = 1, attended = False, late = True, grade = None\<rparr>
     = Inl ValidationError"
  by (simp add: Attendance_save_def Attendance_clean_def)

text \<open>
  C6, amended. A permitted POST to \<open>edit_attendance\<close> in which \<open>attended\<close> is
  not posted for a lesson of the student's group (whatever is posted for \<open>late\<close>)
  is not rejected and leaves the one stored row of that lesson and student with
  \<open>attended=False, late=False\<close>. The model write (\<open>Attendance.save\<close>,
  \<open>Attendance.objects.create\<close>) of a row with \<open>attended=False, late=True\<close> is
  rejected with \<open>ValidationError\<close> and stores nothing.
\<close>

theorem absent_late_handling:
  assumes "get_student st sid = Some s" and "has_access st rq s"
    and "request.http_method rq = POST"
    and "distinct (map Lesson.pk (lessons st))"
    and "distinct (map att_key (attendances st))"
    and "l \<in> set (lessons st)" and "Lesson.group l = Student.group s"
    and "\<not> attended_posted rq (Lesson.pk l)"
  shows "fst (edit_attendance st rq sid) = Inr ()
       \<and> map (\<lambda>x. (Attendance.attended x, Attendance.late x))
           (filter (\<lambda>x. att_key x = (Lesson.pk l, sid))
              (attendances (snd (edit_attendance st rq sid))))
           = [(False, False)]
       \<and> (\<not> Attendance.attended a \<and> Attendance.late a
            \<longrightarrow> Attendance_save st a = Inl ValidationError
              \<and> Attendance_create st a = Inl ValidationError)"
proof -
  note v = edit_attendance_stores [OF assms(1-7)]
  from v have "fst (edit_attendance st rq sid) = Inr ()" by simp
  moreover from v assms(8) have "map (\<lambda>x. (Attendance.attended x, Attendance.late x))
           (filter (\<lambda>x. att_key x = (Lesson.pk l, sid))
              (attendances (snd (edit_attendance st rq sid))))
           = [(False, False)]"
    by (simp add: posted_late_def)
  moreover have "\<not> Attendance.attended a \<and> Attendance.late a
            \<longrightarrow> Attendance_save st a = Inl ValidationError
              \<and> Attendance_create st a = Inl ValidationError"
    by (auto simp: Attendance_save_def Attendance_create_def Attendance_clean_def
        split: option.splits)
  ultimately show ?thesis by blast
qed

text \<open>The teacher posts late without attended for student 1, who had attended.\<close>

theorem absent_late_handling_witness:
  "fst (edit_attendance ex_store3 (ex_attendance_form False True Missing) 1) = Inr ()
   \<and> filter (\<lambda>x. att_key x = (1, 1))
       (attendances (snd (edit_attendance ex_store3 (ex_attendance_form False True Missing) 1)))
       = [\<lparr>lesson = 1, student = 1, attended = False, late = False, grade = None\<rparr>]
   \<and> map (\<lambda>x. (Attendance.attended x, Attendance.late x))
       (filter (\<lambda>x. att_key x = (1, 1))
          (attendances (snd (edit_attendance ex_store3 (ex_attendance_form False True Missing) 1))))
       = [(False, False)]
   \<and> Attendance_save ex_store3
        \<lparr>lesson = 1, student = 1, attended = False, late = True, grade = None\<rparr>
       = Inl ValidationError"
proof -
  have s: "get_student ex_store3 1 = Some \<lparr>Student.pk = 1, user = 20, group = 1\<rparr>"
    by (simp add: ex_defs query_defs)
  have a: "has_access ex_store3 (ex_attendance_form False True Missing)
             \<lparr>Student.pk = 1, user = 20, group = 1\<rparr>"
    by (simp add: ex_defs query_defs has_access_def)
  have m: "request.http_method (ex_attendance_form False True Missing) = POST"
    by (simp add: ex_defs)
  have dl: "distinct (map Lesson.pk (lessons ex_store3))"
    and da: "distinct (map att_key (attendances ex_store3))"
    and l: "ex_lesson \<in> set (lessons ex_store3)"
    and g: "Lesson.group ex_lesson = Student.group \<lparr>Student.pk = 1, user = 20, group = 1\<rparr>"
    and k: "Lesson.pk ex_lesson = 1"
    by (simp_all add: ex_defs att_key_def)
  have n: "\<not> attended_posted (ex_attendance_form False True Missing) (Lesson.pk ex_lesson)"
    by (simp add: ex_defs)
  have e: "filter (\<lambda>x. att_key x = (1, 1))
       (attendances (snd (edit_attendance ex_store3 (ex_attendance_form False True Missing) 1)))
       = [\<lparr>lesson = 1, student = 1, attended = False, late = False, grade = None\<rparr>]"
    by (simp add: ex_defs query_defs attendance_defs Let_def)
  from absent_late_handling [OF s a m dl da l g n,
      of "\<lparr>lesson = 1, student = 1, attended = False, late = True, grade = None\<rparr>"] e
  show ?thesis
    by (simp add: k)
qed

end
